theory Spec2Isabelle
  imports Complex_Main "HOL-Library.Char_ord" "HOL-Library.List_Lexorder" "HOL-Library.Log_Nat"
begin

section \<open>Shared data of the detection-and-response pipeline\<close>

text \<open>
  The two services embedded here are \<^verbatim>\<open>AutomatedResponseService.ts\<close> and
  \<^verbatim>\<open>TrendAnalysisService.ts\<close>. The response service only compares its scores with
  bounds and adds engagement counts, so there a \<^verbatim>\<open>number\<close> is the \<^typ>\<open>real\<close> it
  denotes. The trend service multiplies, adds and divides: its numbers are IEEE doubles,
  with rounding, infinities and NaN (section \<open>JavaScript numbers of the trend service\<close>).
  A \<^verbatim>\<open>Date\<close> is its \<^verbatim>\<open>getTime()\<close>, an \<^typ>\<open>int\<close> of milliseconds. The string unions
  \<^verbatim>\<open>'low' | 'medium' | 'high' | 'critical'\<close> and the action types are datatypes.
\<close>

datatype level = Low | Medium | High | Critical

datatype action_type = Flag | Remove | Escalate | Warn | Quarantine | Notify

fun level_str :: "level \<Rightarrow> string" where
  "level_str Low = ''low''"
| "level_str Medium = ''medium''"
| "level_str High = ''high''"
| "level_str Critical = ''critical''"

fun type_str :: "action_type \<Rightarrow> string" where
  "type_str Flag = ''flag''"
| "type_str Remove = ''remove''"
| "type_str Escalate = ''escalate''"
| "type_str Warn = ''warn''"
| "type_str Quarantine = ''quarantine''"
| "type_str Notify = ''notify''"

text \<open>\<^verbatim>\<open>interface ResponseAction\<close> (the optional, never read \<^verbatim>\<open>metadata\<close> is left out).\<close>

record ResponseAction =
  atype :: action_type
  severity :: level
  automated :: bool
  reason :: string

text \<open>\<^verbatim>\<open>interface DetectionResult\<close> of \<^verbatim>\<open>ContentDetectionService.ts\<close>.\<close>

record DetectionResult =
  harmfulnessScore :: real
  categories :: "string list"
  confidence :: real
  reasoning :: string
  flagged :: bool

text \<open>
  Modelled from the spec: the \<^verbatim>\<open>IContent\<close> document type of \<^verbatim>\<open>@/models/Content\<close> is not
  among the sources; the fields read by the response service are taken from the spec's
  \<^verbatim>\<open>engagement:{likes, shares, comments, views?}\<close> and \<^verbatim>\<open>platform\<close>.
\<close>

record Engagement =
  likes :: real
  shares :: real
  comments :: real
  views :: "real option"

record Content =
  platform :: string
  engagement :: Engagement

text \<open>The optional parts of a rule's \<^verbatim>\<open>conditions\<close> are options; \<^verbatim>\<open>None\<close> is an absent field.\<close>

record ScoreRange =
  range_min :: "real option"
  range_max :: "real option"

record Conditions =
  cond_harmfulnessScore :: "ScoreRange option"
  cond_categories :: "string list option"
  cond_platforms :: "string list option"
  cond_confidence :: "real option option"
  cond_viralityIndicators :: "bool option"

record EscalationRule =
  rule_id :: string
  rule_name :: string
  conditions :: Conditions
  actions :: "ResponseAction list"
  priority :: real
  enabled :: bool

section \<open>Urgency\<close>

definition high_risk_categories :: "string list" where
  "high_risk_categories = [''self_harm'', ''violence'', ''dangerous_challenge'', ''extremism'']"

definition determineUrgency :: "DetectionResult \<Rightarrow> level" where
  "determineUrgency detectionResult =
     (let score = harmfulnessScore detectionResult;
          hasHighRiskCategories =
            list_ex (\<lambda>cat. cat \<in> set high_risk_categories) (categories detectionResult)
      in if score \<ge> 0.95 \<or> hasHighRiskCategories then Critical
         else if score \<ge> 0.85 then High
         else if score \<ge> 0.7 then Medium
         else Low)"

fun getJobPriority :: "level \<Rightarrow> nat" where
  "getJobPriority Critical = 1"
| "getJobPriority High = 2"
| "getJobPriority Medium = 3"
| "getJobPriority Low = 4"

section \<open>Escalation rule engine\<close>

text \<open>
  JavaScript values that a condition can produce: \<^verbatim>\<open>checkViralityIndicators\<close> is declared
  \<^verbatim>\<open>boolean\<close> but returns the value of an \<^verbatim>\<open>||\<close> chain whose last operand is
  \<^verbatim>\<open>views && views > 10000\<close>, which is \<^verbatim>\<open>undefined\<close> or \<^verbatim>\<open>0\<close> when \<^verbatim>\<open>views\<close> is.
\<close>

datatype jsval = JBool bool | JNum real | JUndefined

fun truthy :: "jsval \<Rightarrow> bool" where
  "truthy (JBool b) = b"
| "truthy (JNum x) = (x \<noteq> 0)"
| "truthy JUndefined = False"

definition checkViralityIndicators :: "Content \<Rightarrow> jsval" where
  "checkViralityIndicators content =
     (let totalEngagement = likes (engagement content) + shares (engagement content)
                            + comments (engagement content);
          viralThreshold = 1000
      in if totalEngagement > viralThreshold then JBool True
         else if shares (engagement content) > 100 then JBool True
         else (case views (engagement content) of
                 None \<Rightarrow> JUndefined
               | Some v \<Rightarrow> if v \<noteq> 0 then JBool (v > 10000) else JNum v))"

text \<open>
  The filter predicate of \<^verbatim>\<open>findApplicableRules\<close>, one \<^verbatim>\<open>if\<close> per early
  \<^verbatim>\<open>return false\<close>. A guard \<^verbatim>\<open>x.min && score < x.min\<close> is taken only when
  \<^verbatim>\<open>x.min\<close> is present and not 0 (0 is falsy).
\<close>

definition rule_applies :: "DetectionResult \<Rightarrow> Content \<Rightarrow> EscalationRule \<Rightarrow> bool" where
  "rule_applies detectionResult content rule =
     (if \<not> enabled rule then False
      else let cs = conditions rule in
        if (case cond_harmfulnessScore cs of
              None \<Rightarrow> False
            | Some hs \<Rightarrow> (case range_min hs of
                            None \<Rightarrow> False
                          | Some m \<Rightarrow> m \<noteq> 0 \<and> harmfulnessScore detectionResult < m))
        then False
        else if (case cond_harmfulnessScore cs of
              None \<Rightarrow> False
            | Some hs \<Rightarrow> (case range_max hs of
                            None \<Rightarrow> False
                          | Some m \<Rightarrow> m \<noteq> 0 \<and> harmfulnessScore detectionResult > m))
        then False
        else if (case cond_confidence cs of
              None \<Rightarrow> False
            | Some None \<Rightarrow> False
            | Some (Some m) \<Rightarrow> m \<noteq> 0 \<and> confidence detectionResult < m)
        then False
        else if (case cond_categories cs of
              None \<Rightarrow> False
            | Some cats \<Rightarrow> length cats > 0 \<and>
                \<not> list_ex (\<lambda>cat. cat \<in> set (categories detectionResult)) cats)
        then False
        else if (case cond_platforms cs of
              None \<Rightarrow> False
            | Some ps \<Rightarrow> length ps > 0 \<and> platform content \<notin> set ps)
        then False
        else if cond_viralityIndicators cs = Some True
                \<and> \<not> truthy (checkViralityIndicators content)
        then False
        else True)"

text \<open>
  \<^verbatim>\<open>Array.prototype.sort\<close> is stable; with the comparator \<^verbatim>\<open>b.priority - a.priority\<close>
  it is the stable sort by descending priority.
\<close>

definition findApplicableRules ::
  "EscalationRule list \<Rightarrow> DetectionResult \<Rightarrow> Content \<Rightarrow> EscalationRule list" where
  "findApplicableRules escalationRules detectionResult content =
     sort_key (\<lambda>r. - priority r) (filter (rule_applies detectionResult content) escalationRules)"

fun typePriority :: "action_type \<Rightarrow> int" where
  "typePriority Remove = 5"
| "typePriority Quarantine = 4"
| "typePriority Escalate = 3"
| "typePriority Flag = 2"
| "typePriority Warn = 1"
| "typePriority Notify = 1"

fun severityPriority :: "level \<Rightarrow> int" where
  "severityPriority Critical = 4"
| "severityPriority High = 3"
| "severityPriority Medium = 2"
| "severityPriority Low = 1"

text \<open>\<^verbatim>\<open>x || d\<close> on a number \<^verbatim>\<open>x\<close>: 0 is falsy.\<close>

definition num_or :: "'a::zero \<Rightarrow> 'a \<Rightarrow> 'a" where
  "num_or x d = (if x = 0 then d else x)"

definition getActionPriority :: "ResponseAction \<Rightarrow> int" where
  "getActionPriority action =
     num_or (typePriority (atype action)) 1 * num_or (severityPriority (severity action)) 1"

text \<open>
  The \<^verbatim>\<open>Map<string, ResponseAction>\<close> of \<^verbatim>\<open>consolidateActions\<close> iterates in insertion
  order, so it is an association list: \<^verbatim>\<open>set\<close> on a key already there replaces the value
  in place, on a new key it appends.
\<close>

definition action_key :: "ResponseAction \<Rightarrow> string" where
  "action_key action = type_str (atype action) @ ''_'' @ level_str (severity action)"

fun map_set :: "(string \<times> 'v) list \<Rightarrow> string \<Rightarrow> 'v \<Rightarrow> (string \<times> 'v) list" where
  "map_set [] k v = [(k, v)]"
| "map_set ((k', v') # m) k v = (if k' = k then (k, v) # m else (k', v') # map_set m k v)"

definition consolidate_step ::
  "ResponseAction \<Rightarrow> (string \<times> ResponseAction) list \<Rightarrow> (string \<times> ResponseAction) list" where
  "consolidate_step action actionMap =
     (let key = action_key action in
      case map_of actionMap key of
        None \<Rightarrow> map_set actionMap key action
      | Some existing \<Rightarrow>
          if getActionPriority action > getActionPriority existing
          then map_set actionMap key action
          else actionMap)"

definition consolidateActions :: "EscalationRule list \<Rightarrow> ResponseAction list" where
  "consolidateActions rules =
     sort_key (\<lambda>a. - getActionPriority a)
       (map snd (fold (\<lambda>rule actionMap. fold consolidate_step (actions rule) actionMap) rules []))"

text \<open>The rules of \<^verbatim>\<open>getDefaultEscalationRules\<close>.\<close>

definition no_conditions :: Conditions where
  "no_conditions = \<lparr>cond_harmfulnessScore = None, cond_categories = None,
     cond_platforms = None, cond_confidence = None, cond_viralityIndicators = None\<rparr>"

definition getDefaultEscalationRules :: "EscalationRule list" where
  "getDefaultEscalationRules =
    [\<lparr>rule_id = ''critical_self_harm'', rule_name = ''Critical Self-Harm Content'',
      conditions = no_conditions\<lparr>cond_categories := Some [''self_harm''],
        cond_harmfulnessScore := Some \<lparr>range_min = Some 0.8, range_max = None\<rparr>\<rparr>,
      actions =
        [\<lparr>atype = Remove, severity = Critical, automated = True,
           reason = ''Self-harm content detected''\<rparr>,
         \<lparr>atype = Notify, severity = Critical, automated = True,
           reason = ''Mental health crisis alert''\<rparr>],
      priority = 100, enabled = True\<rparr>,
     \<lparr>rule_id = ''high_violence_viral'', rule_name = ''High Violence with Viral Potential'',
      conditions = no_conditions\<lparr>cond_categories := Some [''violence''],
        cond_harmfulnessScore := Some \<lparr>range_min = Some 0.75, range_max = None\<rparr>,
        cond_viralityIndicators := Some True\<rparr>,
      actions =
        [\<lparr>atype = Quarantine, severity = High, automated = True,
           reason = ''Violent content with viral potential''\<rparr>,
         \<lparr>atype = Escalate, severity = High, automated = True,
           reason = ''Human review required for viral violent content''\<rparr>],
      priority = 90, enabled = True\<rparr>,
     \<lparr>rule_id = ''moderate_hate_speech'', rule_name = ''Moderate Hate Speech'',
      conditions = no_conditions\<lparr>cond_categories := Some [''hate_speech''],
        cond_harmfulnessScore := Some \<lparr>range_min = Some 0.6, range_max = Some 0.85\<rparr>\<rparr>,
      actions =
        [\<lparr>atype = Flag, severity = Medium, automated = True,
           reason = ''Hate speech detected''\<rparr>,
         \<lparr>atype = Warn, severity = Medium, automated = True,
           reason = ''Community guidelines violation''\<rparr>],
      priority = 70, enabled = True\<rparr>,
     \<lparr>rule_id = ''dangerous_challenge_tiktok'', rule_name = ''Dangerous Challenge on TikTok'',
      conditions = no_conditions\<lparr>cond_categories := Some [''dangerous_challenge''],
        cond_platforms := Some [''tiktok''],
        cond_harmfulnessScore := Some \<lparr>range_min = Some 0.7, range_max = None\<rparr>\<rparr>,
      actions =
        [\<lparr>atype = Remove, severity = High, automated = True,
           reason = ''Dangerous challenge removed for safety''\<rparr>,
         \<lparr>atype = Notify, severity = High, automated = True,
           reason = ''Dangerous trend alert''\<rparr>],
      priority = 85, enabled = True\<rparr>,
     \<lparr>rule_id = ''low_confidence_high_harm'', rule_name = ''Low Confidence High Harm Score'',
      conditions = no_conditions\<lparr>
        cond_harmfulnessScore := Some \<lparr>range_min = Some 0.8, range_max = None\<rparr>,
        cond_confidence := Some (Some 0.0)\<rparr>,
      actions =
        [\<lparr>atype = Escalate, severity = Medium, automated = True,
           reason = ''Low confidence high harm - needs human review''\<rparr>],
      priority = 60, enabled = True\<rparr>]"

section \<open>Response executor\<close>

text \<open>
  The moderation state of one content document: the fields the executor writes with
  \<^verbatim>\<open>$set\<close> (\<^verbatim>\<open>analysisResults.flagged\<close> and the \<^verbatim>\<open>metadata.*\<close> markers). A marker
  that was never set reads as \<^verbatim>\<open>False\<close>, a reason or time that was never set as
  \<^verbatim>\<open>None\<close>.
\<close>

record ContentMeta =
  meta_flagged :: bool
  meta_flags :: "(string \<times> level \<times> int) option"
  meta_removed :: bool
  meta_removeReason :: "string option"
  meta_removedAt :: "int option"
  meta_removedBy :: "string option"
  meta_escalated :: bool
  meta_escalationReason :: "string option"
  meta_escalatedAt :: "int option"
  meta_reviewPriority :: "level option"
  meta_userWarned :: bool
  meta_warningReason :: "string option"
  meta_warnedAt :: "int option"
  meta_quarantined :: bool
  meta_quarantineReason :: "string option"
  meta_quarantinedAt :: "int option"
  meta_requiresReview :: bool

record ContentDoc =
  doc :: Content
  meta :: ContentMeta

text \<open>A job on the \<^verbatim>\<open>escalation\<close> queue (\<^verbatim>\<open>escalate-content\<close>) with its queue priority.\<close>

record EscalationJob =
  job_contentId :: string
  job_action :: ResponseAction
  job_detectionResult :: DetectionResult
  job_priority :: int

text \<open>The logger calls of the executor, one constructor per message template.\<close>

datatype log_event =
    ContentFlagged string level
  | BelowAutoActionThreshold string real real
  | ContentRemoved string string
  | ContentEscalated string level
  | UserWarned string string
  | ContentQuarantined string string
  | StakeholderNotified string level "string list" real string
  | ResponseLogged string

record ResponseLogEntry =
  entry_contentId :: string
  entry_actions :: "(action_type \<times> level \<times> string) list"
  entry_detection :: "real \<times> string list \<times> real"
  entry_timestamp :: int

text \<open>
  The world the executor acts on: the \<^verbatim>\<open>Content\<close> collection by document id, the
  escalation queue, the logger's output and the \<^verbatim>\<open>response_log\<close> list
  (\<^verbatim>\<open>lPush\<close> puts the newest entry first). The store and the queue are taken to answer:
  a rejected promise of theirs is not modelled.
\<close>

record ExecState =
  contents :: "string \<rightharpoonup> ContentDoc"
  escalationQueue :: "EscalationJob list"
  logged :: "log_event list"
  response_log :: "ResponseLogEntry list"

text \<open>\<^verbatim>\<open>Content.findByIdAndUpdate(id, {$set: ...})\<close>: no document with that id, no change.\<close>

definition findByIdAndUpdate ::
  "string \<Rightarrow> (ContentMeta \<Rightarrow> ContentMeta) \<Rightarrow> ExecState \<Rightarrow> ExecState" where
  "findByIdAndUpdate contentId upd st =
     (case contents st contentId of
        None \<Rightarrow> st
      | Some d \<Rightarrow> st\<lparr>contents := (contents st)(contentId \<mapsto> d\<lparr>meta := upd (meta d)\<rparr>)\<rparr>)"

definition log_line :: "log_event \<Rightarrow> ExecState \<Rightarrow> ExecState" where
  "log_line e st = st\<lparr>logged := logged st @ [e]\<rparr>"

definition flagContent ::
  "int \<Rightarrow> string \<Rightarrow> ResponseAction \<Rightarrow> DetectionResult \<Rightarrow> ExecState \<Rightarrow> ExecState" where
  "flagContent now contentId action detectionResult st =
     log_line (ContentFlagged contentId (severity action))
       (findByIdAndUpdate contentId
          (\<lambda>m. m\<lparr>meta_flagged := True,
                  meta_flags := Some (reason action, severity action, now)\<rparr>) st)"

definition escalateToHuman ::
  "int \<Rightarrow> string \<Rightarrow> ResponseAction \<Rightarrow> DetectionResult \<Rightarrow> ExecState \<Rightarrow> ExecState" where
  "escalateToHuman now contentId action detectionResult st =
     (let st1 = st\<lparr>escalationQueue := escalationQueue st @
                     [\<lparr>job_contentId = contentId, job_action = action,
                       job_detectionResult = detectionResult,
                       job_priority = getActionPriority action\<rparr>]\<rparr>;
          st2 = findByIdAndUpdate contentId
                  (\<lambda>m. m\<lparr>meta_escalated := True,
                          meta_escalationReason := Some (reason action),
                          meta_escalatedAt := Some now,
                          meta_reviewPriority := Some (severity action)\<rparr>) st1
      in log_line (ContentEscalated contentId (severity action)) st2)"

definition removeContent ::
  "real \<Rightarrow> int \<Rightarrow> string \<Rightarrow> ResponseAction \<Rightarrow> DetectionResult \<Rightarrow> ExecState \<Rightarrow> ExecState" where
  "removeContent autoActionThreshold now contentId action detectionResult st =
     (if harmfulnessScore detectionResult < autoActionThreshold
      then escalateToHuman now contentId action detectionResult
             (log_line (BelowAutoActionThreshold contentId (harmfulnessScore detectionResult)
                          autoActionThreshold) st)
      else log_line (ContentRemoved contentId (reason action))
             (findByIdAndUpdate contentId
                (\<lambda>m. m\<lparr>meta_removed := True,
                        meta_removeReason := Some (reason action),
                        meta_removedAt := Some now,
                        meta_removedBy := Some ''automated_system''\<rparr>) st))"

definition warnUser ::
  "int \<Rightarrow> string \<Rightarrow> ResponseAction \<Rightarrow> DetectionResult \<Rightarrow> ExecState \<Rightarrow> ExecState" where
  "warnUser now contentId action detectionResult st =
     (case contents st contentId of
        None \<Rightarrow> st
      | Some content \<Rightarrow>
          log_line (UserWarned contentId (reason action))
            (findByIdAndUpdate contentId
               (\<lambda>m. m\<lparr>meta_userWarned := True,
                       meta_warningReason := Some (reason action),
                       meta_warnedAt := Some now\<rparr>) st))"

definition quarantineContent ::
  "int \<Rightarrow> string \<Rightarrow> ResponseAction \<Rightarrow> DetectionResult \<Rightarrow> ExecState \<Rightarrow> ExecState" where
  "quarantineContent now contentId action detectionResult st =
     log_line (ContentQuarantined contentId (reason action))
       (findByIdAndUpdate contentId
          (\<lambda>m. m\<lparr>meta_quarantined := True,
                  meta_quarantineReason := Some (reason action),
                  meta_quarantinedAt := Some now,
                  meta_requiresReview := True\<rparr>) st)"

definition notifyStakeholders ::
  "int \<Rightarrow> string \<Rightarrow> ResponseAction \<Rightarrow> DetectionResult \<Rightarrow> ExecState \<Rightarrow> ExecState" where
  "notifyStakeholders now contentId action detectionResult st =
     log_line (StakeholderNotified contentId (severity action) (categories detectionResult)
                 (harmfulnessScore detectionResult) (reason action)) st"

text \<open>
  \<^verbatim>\<open>executeAction\<close>: the \<^verbatim>\<open>switch\<close> on the action type. The \<^verbatim>\<open>default\<close> branch is
  unreachable for the six types of \<^verbatim>\<open>ResponseAction\<close>.
\<close>

definition executeAction ::
  "real \<Rightarrow> int \<Rightarrow> string \<Rightarrow> ResponseAction \<Rightarrow> DetectionResult \<Rightarrow> ExecState \<Rightarrow> ExecState" where
  "executeAction autoActionThreshold now contentId action detectionResult st =
     (case atype action of
        Flag \<Rightarrow> flagContent now contentId action detectionResult st
      | Remove \<Rightarrow> removeContent autoActionThreshold now contentId action detectionResult st
      | Escalate \<Rightarrow> escalateToHuman now contentId action detectionResult st
      | Warn \<Rightarrow> warnUser now contentId action detectionResult st
      | Quarantine \<Rightarrow> quarantineContent now contentId action detectionResult st
      | Notify \<Rightarrow> notifyStakeholders now contentId action detectionResult st)"

definition logResponseActions ::
  "int \<Rightarrow> string \<Rightarrow> ResponseAction list \<Rightarrow> DetectionResult \<Rightarrow> ExecState \<Rightarrow> ExecState" where
  "logResponseActions now contentId acts detectionResult st =
     log_line (ResponseLogged contentId)
       (st\<lparr>response_log :=
            \<lparr>entry_contentId = contentId,
             entry_actions = map (\<lambda>a. (atype a, severity a, reason a)) acts,
             entry_detection = (harmfulnessScore detectionResult, categories detectionResult,
                                confidence detectionResult),
             entry_timestamp = now\<rparr> # response_log st\<rparr>)"

datatype exec_error = ContentNotFound string

text \<open>
  \<^verbatim>\<open>processContentResponse\<close>: the handler of a \<^verbatim>\<open>handle-content\<close> job. The rule set and
  the threshold are the service's fields \<^verbatim>\<open>escalationRules\<close> and
  \<^verbatim>\<open>autoActionThreshold\<close>.
\<close>

definition processContentResponse ::
  "EscalationRule list \<Rightarrow> real \<Rightarrow> int \<Rightarrow> string \<Rightarrow> DetectionResult \<Rightarrow> ExecState
     \<Rightarrow> exec_error + ExecState" where
  "processContentResponse escalationRules autoActionThreshold now contentId detectionResult st =
     (case contents st contentId of
        None \<Rightarrow> Inl (ContentNotFound contentId)
      | Some content \<Rightarrow>
          (let applicableRules = findApplicableRules escalationRules detectionResult (doc content);
               acts = consolidateActions applicableRules;
               st' = fold (\<lambda>action s. executeAction autoActionThreshold now contentId action
                                         detectionResult s) acts st
           in Inr (logResponseActions now contentId acts detectionResult st')))"

definition default_autoActionThreshold :: real where
  "default_autoActionThreshold = 0.95"

text \<open>A document on which no marker has been set yet.\<close>

definition blank_meta :: ContentMeta where
  "blank_meta = \<lparr>meta_flagged = False, meta_flags = None, meta_removed = False,
     meta_removeReason = None, meta_removedAt = None, meta_removedBy = None,
     meta_escalated = False, meta_escalationReason = None, meta_escalatedAt = None,
     meta_reviewPriority = None, meta_userWarned = False, meta_warningReason = None,
     meta_warnedAt = None, meta_quarantined = False, meta_quarantineReason = None,
     meta_quarantinedAt = None, meta_requiresReview = False\<rparr>"

text \<open>The \<^verbatim>\<open>metadata.removed\<close> marker of every stored document.\<close>

definition removed_of :: "ExecState \<Rightarrow> string \<Rightarrow> bool option" where
  "removed_of st c = map_option (\<lambda>d. meta_removed (meta d)) (contents st c)"

section \<open>JavaScript numbers of the trend service\<close>

text \<open>
  The trend service computes with its numbers, so there a \<^verbatim>\<open>number\<close> is an IEEE 754
  double: a finite value, an infinity or NaN. A finite double is carried as the real it
  denotes; every arithmetic operation computes the exact result and rounds it to the
  nearest double, ties to the even significand (\<open>rnd\<close>): 53 significant bits above
  \<open>2 powi (- 1022)\<close>, multiples of \<open>2 powi (- 1074)\<close> below, an infinity from
  \<open>2 powi 1024\<close> on. The sign of a zero is not recorded (the service never divides by a
  computed zero of negative sign). A decimal literal of the source denotes the double
  nearest to it (\<open>lit\<close>).
\<close>

datatype jsnum = Fin real | PInf | NInf | NaN

definition round_even :: "real \<Rightarrow> int" where
  "round_even r =
     (let f = \<lfloor>r\<rfloor> in
      if r - of_int f < 1 / 2 then f
      else if r - of_int f > 1 / 2 then f + 1
      else if even f then f else f + 1)"

text \<open>The binary exponent of a positive real: \<open>2 powi expo x \<le> x < 2 powi (expo x + 1)\<close>.\<close>

definition expo :: "real \<Rightarrow> int" where
  "expo x = (if 1 \<le> x then bitlen \<lfloor>x\<rfloor> - 1 else - bitlen (\<lceil>1 / x\<rceil> - 1))"

definition rnd :: "real \<Rightarrow> jsnum" where
  "rnd x =
     (if x = 0 then Fin 0
      else let e = max (expo \<bar>x\<bar>) (- 1022);
               u = 2 powi (e - 52);
               y = of_int (round_even (x / u)) * u
           in if 2 powi 1024 \<le> \<bar>y\<bar> then (if 0 < x then PInf else NInf) else Fin y)"

definition lit :: "real \<Rightarrow> jsnum" where
  "lit x = rnd x"

fun positive :: "jsnum \<Rightarrow> bool" where
  "positive (Fin x) = (0 < x)"
| "positive PInf = True"
| "positive NInf = False"
| "positive NaN = False"

fun jneg :: "jsnum \<Rightarrow> jsnum" where
  "jneg (Fin x) = Fin (- x)"
| "jneg PInf = NInf"
| "jneg NInf = PInf"
| "jneg NaN = NaN"

text \<open>\<^verbatim>\<open>a + b\<close>, \<^verbatim>\<open>a - b\<close>, \<^verbatim>\<open>a * b\<close>, \<^verbatim>\<open>a / b\<close>.\<close>

definition jadd :: "jsnum \<Rightarrow> jsnum \<Rightarrow> jsnum" where
  "jadd a b =
     (case (a, b) of
        (Fin x, Fin y) \<Rightarrow> rnd (x + y)
      | (NaN, _) \<Rightarrow> NaN
      | (_, NaN) \<Rightarrow> NaN
      | (PInf, NInf) \<Rightarrow> NaN
      | (NInf, PInf) \<Rightarrow> NaN
      | (PInf, _) \<Rightarrow> PInf
      | (NInf, _) \<Rightarrow> NInf
      | (Fin x, other) \<Rightarrow> other)"

definition jsub :: "jsnum \<Rightarrow> jsnum \<Rightarrow> jsnum" where
  "jsub a b = jadd a (jneg b)"

definition jmul :: "jsnum \<Rightarrow> jsnum \<Rightarrow> jsnum" where
  "jmul a b =
     (case (a, b) of
        (Fin x, Fin y) \<Rightarrow> rnd (x * y)
      | _ \<Rightarrow> if a = NaN \<or> b = NaN \<or> a = Fin 0 \<or> b = Fin 0 then NaN
             else if positive a = positive b then PInf else NInf)"

definition jdiv :: "jsnum \<Rightarrow> jsnum \<Rightarrow> jsnum" where
  "jdiv a b =
     (case (a, b) of
        (Fin x, Fin y) \<Rightarrow>
          if y = 0 then (if x = 0 then NaN else if 0 < x then PInf else NInf)
          else rnd (x / y)
      | (NaN, _) \<Rightarrow> NaN
      | (_, NaN) \<Rightarrow> NaN
      | (Fin x, _) \<Rightarrow> Fin 0
      | (_, Fin y) \<Rightarrow> if positive a = (0 \<le> y) then PInf else NInf
      | _ \<Rightarrow> NaN)"

text \<open>\<^verbatim>\<open>a <= b\<close> and \<^verbatim>\<open>a >= b\<close>: false when an operand is NaN.\<close>

fun jle :: "jsnum \<Rightarrow> jsnum \<Rightarrow> bool" where
  "jle NaN _ = False"
| "jle _ NaN = False"
| "jle NInf _ = True"
| "jle _ PInf = True"
| "jle (Fin x) (Fin y) = (x \<le> y)"
| "jle PInf _ = False"
| "jle _ NInf = False"

definition jge :: "jsnum \<Rightarrow> jsnum \<Rightarrow> bool" where
  "jge a b = jle b a"

text \<open>\<^verbatim>\<open>Math.min(a, b)\<close>: NaN when an operand is NaN.\<close>

definition jmin :: "jsnum \<Rightarrow> jsnum \<Rightarrow> jsnum" where
  "jmin a b = (if a = NaN \<or> b = NaN then NaN else if jle a b then a else b)"

text \<open>\<^verbatim>\<open>x || d\<close> on a number of the trend service: 0 and NaN are falsy.\<close>

definition js_or :: "jsnum \<Rightarrow> jsnum \<Rightarrow> jsnum" where
  "js_or x d = (if x = Fin 0 \<or> x = NaN then d else x)"

section \<open>Trend scorer\<close>

record TrendData =
  trend_id :: string
  hashtags :: "string list"
  trend_keywords :: "string list"
  platforms :: "string list"
  trend_harmfulnessScore :: jsnum
  viralityScore :: jsnum
  growthRate :: jsnum
  firstDetected :: int
  lastUpdated :: int
  contentCount :: jsnum
  averageEngagement :: jsnum
  trend_categories :: "string list"
  riskLevel :: level

text \<open>The field \<^verbatim>\<open>viralityThreshold\<close>, set to 1000 by the constructor.\<close>

definition viralityThreshold :: jsnum where
  "viralityThreshold = Fin 1000"

definition calculateViralityScore :: "jsnum \<Rightarrow> jsnum \<Rightarrow> jsnum" where
  "calculateViralityScore count avgEngagement =
     (let contentScore = jmin (jdiv count (Fin 100)) (lit 1.0);
          engagementScore = jmin (jdiv avgEngagement viralityThreshold) (lit 1.0)
      in jdiv (jadd contentScore engagementScore) (Fin 2))"

text \<open>
  The two dates are their \<^verbatim>\<open>getTime()\<close>, integers of milliseconds (a valid date is at
  most 8.64e15 from the epoch, so it is a double); their difference and the two divisions
  are double operations.
\<close>

definition calculateGrowthRate :: "int \<Rightarrow> int \<Rightarrow> jsnum \<Rightarrow> jsnum" where
  "calculateGrowthRate first_detected last_updated count =
     (let timeSpanHours = jdiv (jsub (Fin (of_int last_updated)) (Fin (of_int first_detected)))
                            (Fin (1000 * 60 * 60))
      in if jle timeSpanHours (Fin 0) then Fin 0 else jdiv count timeSpanHours)"

definition riskScore :: "jsnum \<Rightarrow> jsnum \<Rightarrow> jsnum \<Rightarrow> jsnum" where
  "riskScore harmfulness virality platformCount =
     jadd (jadd (jmul harmfulness (lit 0.5)) (jmul virality (lit 0.3)))
          (jmul (jmin (jdiv platformCount (Fin 5)) (Fin 1)) (lit 0.2))"

definition calculateRiskLevel :: "jsnum \<Rightarrow> jsnum \<Rightarrow> jsnum \<Rightarrow> level" where
  "calculateRiskLevel harmfulness virality platformCount =
     (let score = riskScore harmfulness virality platformCount
      in if jge score (lit 0.85) then Critical
         else if jge score (lit 0.7) then High
         else if jge score (lit 0.5) then Medium
         else Low)"

text \<open>
  The scores in the words of the specification, in exact arithmetic on the reals; the
  theorems compare them with what the code computes in doubles.
\<close>

definition spec_viralityScore :: "real \<Rightarrow> real \<Rightarrow> real" where
  "spec_viralityScore count avgEngagement =
     (min (count / 100) 1 + min (avgEngagement / 1000) 1) / 2"

definition spec_riskScore :: "real \<Rightarrow> real \<Rightarrow> real \<Rightarrow> real" where
  "spec_riskScore harmfulness virality platformCount =
     0.5 * harmfulness + 0.3 * virality + 0.2 * min (platformCount / 5) 1"

definition spec_riskLevel :: "real \<Rightarrow> level" where
  "spec_riskLevel score =
     (if score \<ge> 0.85 then Critical
      else if score \<ge> 0.70 then High
      else if score \<ge> 0.50 then Medium
      else Low)"

definition spec_growthRate :: "int \<Rightarrow> int \<Rightarrow> real \<Rightarrow> real" where
  "spec_growthRate first_detected last_updated count =
     (if first_detected = last_updated then 0
      else count / (real_of_int (last_updated - first_detected) / 3600000))"

text \<open>Decimal rendering of an index or a clock value inside a template string.\<close>

fun show_nat :: "nat \<Rightarrow> string" where
  "show_nat n = (if n < 10 then [''0123456789'' ! n]
                 else show_nat (n div 10) @ [''0123456789'' ! (n mod 10)])"

declare show_nat.simps [simp del]

definition show_int :: "int \<Rightarrow> string" where
  "show_int i = (if i < 0 then ''-'' @ show_nat (nat (- i)) else show_nat (nat i))"

text \<open>
  The argument of \<^verbatim>\<open>createTrendData\<close>: each of the three callers passes exactly these ten
  fields of the \<^verbatim>\<open>Partial<TrendData>\<close>.
\<close>

record TrendInput =
  in_id :: string
  in_hashtags :: "string list"
  in_keywords :: "string list"
  in_platforms :: "string list"
  in_harmfulnessScore :: jsnum
  in_contentCount :: jsnum
  in_averageEngagement :: jsnum
  in_categories :: "string list"
  in_firstDetected :: int
  in_lastUpdated :: int

definition createTrendData :: "int \<Rightarrow> TrendInput \<Rightarrow> TrendData" where
  "createTrendData now data =
     (let virality = calculateViralityScore (js_or (in_contentCount data) (Fin 0))
                       (js_or (in_averageEngagement data) (Fin 0));
          growth = calculateGrowthRate (in_firstDetected data) (in_lastUpdated data)
                       (js_or (in_contentCount data) (Fin 0));
          risk = calculateRiskLevel (js_or (in_harmfulnessScore data) (Fin 0)) virality
                       (js_or (Fin (real (length (in_platforms data)))) (Fin 1))
      in \<lparr>trend_id = (if in_id data = [] then ''trend_'' @ show_int now else in_id data),
          hashtags = in_hashtags data,
          trend_keywords = in_keywords data,
          platforms = in_platforms data,
          trend_harmfulnessScore = js_or (in_harmfulnessScore data) (Fin 0),
          viralityScore = virality,
          growthRate = growth,
          firstDetected = in_firstDetected data,
          lastUpdated = in_lastUpdated data,
          contentCount = js_or (in_contentCount data) (Fin 0),
          averageEngagement = js_or (in_averageEngagement data) (Fin 0),
          trend_categories = in_categories data,
          riskLevel = risk\<rparr>)"

section \<open>Trend aggregator\<close>

text \<open>
  The rows returned by the three aggregation pipelines. The pipelines run in the content
  store; the embedding starts at their result (\<^verbatim>\<open>None\<close>: the query threw and the pass
  returns the empty list). A row of the hashtag and keyword passes has the tag or word as
  \<^verbatim>\<open>_id\<close>; a row of the cross-platform pass has the pair of categories and hashtags, either
  of which may be missing.
\<close>

record TagGroup =
  tg_id :: string
  tg_count :: jsnum
  tg_platforms :: "string list"
  tg_avgHarmfulnessScore :: jsnum
  tg_totalEngagement :: jsnum
  tg_categories :: "string list list"
  tg_firstSeen :: int
  tg_lastSeen :: int

record CrossGroup =
  cg_categories :: "string list option"
  cg_hashtags :: "string list option"
  cg_platforms :: "string list"
  cg_count :: jsnum
  cg_avgHarmfulnessScore :: jsnum
  cg_totalEngagement :: jsnum
  cg_firstSeen :: int
  cg_lastSeen :: int

definition detectTrendingHashtags :: "int \<Rightarrow> TagGroup list option \<Rightarrow> TrendData list" where
  "detectTrendingHashtags now results =
     (case results of
        None \<Rightarrow> []
      | Some rows \<Rightarrow>
          map (\<lambda>result. createTrendData now
                 \<lparr>in_id = ''hashtag_'' @ tg_id result,
                  in_hashtags = [tg_id result],
                  in_keywords = [],
                  in_platforms = tg_platforms result,
                  in_harmfulnessScore = tg_avgHarmfulnessScore result,
                  in_contentCount = tg_count result,
                  in_averageEngagement = jdiv (tg_totalEngagement result) (tg_count result),
                  in_categories = concat (tg_categories result),
                  in_firstDetected = tg_firstSeen result,
                  in_lastUpdated = tg_lastSeen result\<rparr>) rows)"

definition detectTrendingKeywords :: "int \<Rightarrow> TagGroup list option \<Rightarrow> TrendData list" where
  "detectTrendingKeywords now results =
     (case results of
        None \<Rightarrow> []
      | Some rows \<Rightarrow>
          map (\<lambda>result. createTrendData now
                 \<lparr>in_id = ''keyword_'' @ tg_id result,
                  in_hashtags = [],
                  in_keywords = [tg_id result],
                  in_platforms = tg_platforms result,
                  in_harmfulnessScore = tg_avgHarmfulnessScore result,
                  in_contentCount = tg_count result,
                  in_averageEngagement = jdiv (tg_totalEngagement result) (tg_count result),
                  in_categories = concat (tg_categories result),
                  in_firstDetected = tg_firstSeen result,
                  in_lastUpdated = tg_lastSeen result\<rparr>) rows)"

definition detectCrossPlatformTrends :: "int \<Rightarrow> CrossGroup list option \<Rightarrow> TrendData list" where
  "detectCrossPlatformTrends now results =
     (case results of
        None \<Rightarrow> []
      | Some rows \<Rightarrow>
          map (\<lambda>(index, result). createTrendData now
                 \<lparr>in_id = ''crossplatform_'' @ show_nat index,
                  in_hashtags = (case cg_hashtags result of None \<Rightarrow> [] | Some hs \<Rightarrow> hs),
                  in_keywords = [],
                  in_platforms = cg_platforms result,
                  in_harmfulnessScore = cg_avgHarmfulnessScore result,
                  in_contentCount = cg_count result,
                  in_averageEngagement = jdiv (cg_totalEngagement result) (cg_count result),
                  in_categories = (case cg_categories result of None \<Rightarrow> [] | Some cs \<Rightarrow> cs),
                  in_firstDetected = cg_firstSeen result,
                  in_lastUpdated = cg_lastSeen result\<rparr>) (enumerate 0 rows))"

fun join :: "string \<Rightarrow> string list \<Rightarrow> string" where
  "join sep [] = []"
| "join sep [x] = x"
| "join sep (x # y # ys) = x @ sep @ join sep (y # ys)"

text \<open>
  \<^verbatim>\<open>getTrendKey\<close> sorts the three arrays of the trend in place (\<^verbatim>\<open>Array.prototype.sort\<close>
  without a comparator: the order of the strings) and joins them: the normalised signal
  set of the trend. \<^verbatim>\<open>sort_signals\<close> is the trend as that call leaves it.
\<close>

definition sort_signals :: "TrendData \<Rightarrow> TrendData" where
  "sort_signals trend = trend\<lparr>hashtags := sort (hashtags trend),
     trend_keywords := sort (trend_keywords trend), trend_categories := sort (trend_categories trend)\<rparr>"

definition getTrendKey :: "TrendData \<Rightarrow> string" where
  "getTrendKey trend =
     (let hashtagKey = join '','' (sort (hashtags trend));
          keywordKey = join '','' (sort (trend_keywords trend));
          categoryKey = join '','' (sort (trend_categories trend))
      in hashtagKey @ ''|'' @ keywordKey @ ''|'' @ categoryKey)"

fun consolidate_loop :: "string list \<Rightarrow> TrendData list \<Rightarrow> TrendData list \<Rightarrow> TrendData list" where
  "consolidate_loop seen consolidated [] = consolidated"
| "consolidate_loop seen consolidated (trend # trends) =
     (let key = getTrendKey trend in
      if key \<notin> set seen
      then consolidate_loop (key # seen) (consolidated @ [sort_signals trend]) trends
      else consolidate_loop seen consolidated trends)"

text \<open>
  The comparator of the final sort is \<^verbatim>\<open>bScore - aScore\<close> on the products
  \<^verbatim>\<open>harmfulnessScore * viralityScore\<close>. On finite and infinite products its sign is the
  order of the products, so the stable sort is by descending \<open>sort_rank\<close>. A NaN product
  (an infinite score times 0) makes the comparator answer NaN against every other trend,
  where the order is left to the engine; \<open>sort_rank\<close> places it at 0.
\<close>

fun sort_rank :: "jsnum \<Rightarrow> real" where
  "sort_rank (Fin x) = x"
| "sort_rank PInf = 2 powi 1024"
| "sort_rank NInf = - (2 powi 1024)"
| "sort_rank NaN = 0"

definition consolidateTrends :: "TrendData list \<Rightarrow> TrendData list" where
  "consolidateTrends trends =
     sort_key (\<lambda>t. - sort_rank (jmul (trend_harmfulnessScore t) (viralityScore t)))
       (consolidate_loop [] [] trends)"

section \<open>Trend ledger and warning emitter\<close>

text \<open>
  \<^verbatim>\<open>interface EarlyWarning\<close>. The \<^verbatim>\<open>description\<close> is left out: it formats the growth rate
  with \<^verbatim>\<open>toFixed\<close> and no claim reads it.
\<close>

record EarlyWarning =
  warning_id :: string
  title :: string
  warning_severity :: level
  trendData :: TrendData
  recommendedActions :: "string list"
  createdAt :: int

datatype stored = StoredTrend TrendData | StoredWarning EarlyWarning

text \<open>
  The part of Redis the service writes: string keys with a value and a time to live in
  seconds (\<^verbatim>\<open>setEx\<close>), lists (\<^verbatim>\<open>lPush\<close> puts the new element first) and sorted sets
  (\<^verbatim>\<open>zAdd\<close>). Redis is taken to answer; the \<^verbatim>\<open>catch\<close> of a failed call is not modelled.
\<close>

record Redis =
  strings :: "string \<rightharpoonup> stored \<times> nat"
  lists :: "string \<Rightarrow> string list"
  zsets :: "string \<Rightarrow> (string \<rightharpoonup> jsnum)"

definition setEx :: "string \<Rightarrow> nat \<Rightarrow> stored \<Rightarrow> Redis \<Rightarrow> Redis" where
  "setEx key ttl v r = r\<lparr>strings := (strings r)(key \<mapsto> (v, ttl))\<rparr>"

definition lPush :: "string \<Rightarrow> string \<Rightarrow> Redis \<Rightarrow> Redis" where
  "lPush key v r = r\<lparr>lists := (lists r)(key := v # lists r key)\<rparr>"

definition zAdd :: "string \<Rightarrow> jsnum \<Rightarrow> string \<Rightarrow> Redis \<Rightarrow> Redis" where
  "zAdd key score v r = r\<lparr>zsets := (zsets r)(key := (zsets r key)(v \<mapsto> score))\<rparr>"

text \<open>Redis with nothing stored.\<close>

definition empty_redis :: Redis where
  "empty_redis = \<lparr>strings = Map.empty, lists = (\<lambda>_. []), zsets = (\<lambda>_. Map.empty)\<rparr>"

definition storeTrendData :: "TrendData \<Rightarrow> Redis \<Rightarrow> Redis" where
  "storeTrendData trend r =
     (let key = ''trend:'' @ trend_id trend in
      zAdd ''trending:active'' (jmul (trend_harmfulnessScore trend) (viralityScore trend))
        (trend_id trend)
        (setEx key (24 * 60 * 60) (StoredTrend trend) r))"

fun level_upper :: "level \<Rightarrow> string" where
  "level_upper Low = ''LOW''"
| "level_upper Medium = ''MEDIUM''"
| "level_upper High = ''HIGH''"
| "level_upper Critical = ''CRITICAL''"

text \<open>\<^verbatim>\<open>xs[0] || d\<close> on an array of strings: a missing or empty first element gives \<^verbatim>\<open>d\<close>.\<close>

definition first_or :: "string list \<Rightarrow> string \<Rightarrow> string" where
  "first_or xs d = (case xs of [] \<Rightarrow> d | x # _ \<Rightarrow> if x = [] then d else x)"

definition generateWarningTitle :: "TrendData \<Rightarrow> string" where
  "generateWarningTitle trend =
     (let type = (if length (hashtags trend) > 0 then ''hashtag'' else ''keyword'');
          identifier = first_or (hashtags trend) (first_or (trend_keywords trend) ''content'')
      in level_upper (riskLevel trend) @ '' Risk: Trending '' @ type @ '' '' @ [CHR 0x22]
           @ identifier @ [CHR 0x22])"

definition generateRecommendedActions :: "TrendData \<Rightarrow> string list" where
  "generateRecommendedActions trend =
     (if riskLevel trend = Critical
      then [''Immediate human review required'', ''Consider emergency content removal'',
            ''Notify platform partners'']
      else [])
     @ (if riskLevel trend = High
        then [''Escalate to senior moderators'', ''Increase monitoring frequency'',
              ''Prepare response guidelines'']
        else [])
     @ (if length (platforms trend) > 2 then [''Coordinate cross-platform response''] else [])
     @ (if ''self_harm'' \<in> set (trend_categories trend)
        then [''Alert mental health support teams''] else [])
     @ (if ''dangerous_challenge'' \<in> set (trend_categories trend)
        then [''Issue safety warnings''] else [])"

definition generateEarlyWarning :: "int \<Rightarrow> TrendData \<Rightarrow> Redis \<Rightarrow> Redis" where
  "generateEarlyWarning now trend r =
     (let warning = \<lparr>warning_id = ''warning_'' @ trend_id trend @ ''_'' @ show_int now,
                     title = generateWarningTitle trend,
                     warning_severity = riskLevel trend,
                     trendData = trend,
                     recommendedActions = generateRecommendedActions trend,
                     createdAt = now\<rparr>;
          key = ''warning:'' @ warning_id warning
      in lPush ''warnings:active'' (warning_id warning)
           (setEx key (7 * 24 * 60 * 60) (StoredWarning warning) r))"

text \<open>
  One aggregation cycle, \<^verbatim>\<open>analyzeCurrentTrends\<close>, from the rows of the three queries:
  the loop stores every consolidated trend and warns for the high and critical ones. The
  clock is read as one value during the cycle.
\<close>

definition analyze_step :: "int \<Rightarrow> TrendData \<Rightarrow> Redis \<Rightarrow> Redis" where
  "analyze_step now trend r =
     (let r' = storeTrendData trend r in
      if riskLevel trend = High \<or> riskLevel trend = Critical
      then generateEarlyWarning now trend r'
      else r')"

definition analyzeCurrentTrends ::
  "int \<Rightarrow> TagGroup list option \<Rightarrow> TagGroup list option \<Rightarrow> CrossGroup list option \<Rightarrow> Redis
     \<Rightarrow> TrendData list \<times> Redis" where
  "analyzeCurrentTrends now hashtagRows keywordRows crossRows r =
     (let trendingHashtags = detectTrendingHashtags now hashtagRows;
          trendingKeywords = detectTrendingKeywords now keywordRows;
          crossPlatformTrends = detectCrossPlatformTrends now crossRows;
          allTrends = trendingHashtags @ trendingKeywords @ crossPlatformTrends;
          consolidatedTrends = consolidateTrends allTrends
      in (consolidatedTrends, fold (analyze_step now) consolidatedTrends r))"

section \<open>Urgency classification\<close>

text \<open>
  Claim C2. \<^verbatim>\<open>determineUrgency\<close> returns critical if the harmfulness score is at least 0.95
  or some category of the detection is one of self_harm, violence, dangerous_challenge,
  extremism; otherwise high from 0.85, medium from 0.70, and low below. In particular a
  score in [0, 0.49] without a high-risk category gives low, and a score in [0.95, 1]
  gives critical.
\<close>

theorem determineUrgency_spec:
  "determineUrgency d =
     (if harmfulnessScore d \<ge> 0.95 \<or>
         (\<exists>cat \<in> set (categories d).
            cat \<in> {''self_harm'', ''violence'', ''dangerous_challenge'', ''extremism''})
      then Critical
      else if harmfulnessScore d \<ge> 0.85 then High
      else if harmfulnessScore d \<ge> 0.70 then Medium
      else Low)
   \<and> (0 \<le> harmfulnessScore d \<and> harmfulnessScore d \<le> 0.49 \<and>
        set (categories d) \<inter> {''self_harm'', ''violence'', ''dangerous_challenge'', ''extremism''} = {}
        \<longrightarrow> determineUrgency d = Low)
   \<and> (0.95 \<le> harmfulnessScore d \<and> harmfulnessScore d \<le> 1 \<longrightarrow> determineUrgency d = Critical)"
proof -
  have ex: "list_ex (\<lambda>cat. cat \<in> set high_risk_categories) (categories d) =
        (\<exists>cat \<in> set (categories d).
            cat \<in> {''self_harm'', ''violence'', ''dangerous_challenge'', ''extremism''})"
    by (simp add: list_ex_iff high_risk_categories_def)
  have main: "determineUrgency d =
     (if harmfulnessScore d \<ge> 0.95 \<or>
         (\<exists>cat \<in> set (categories d).
            cat \<in> {''self_harm'', ''violence'', ''dangerous_challenge'', ''extremism''})
      then Critical
      else if harmfulnessScore d \<ge> 0.85 then High
      else if harmfulnessScore d \<ge> 0.70 then Medium
      else Low)"
    unfolding determineUrgency_def Let_def ex by simp
  have low: "determineUrgency d = Low"
    if "0 \<le> harmfulnessScore d \<and> harmfulnessScore d \<le> 0.49 \<and>
        set (categories d) \<inter> {''self_harm'', ''violence'', ''dangerous_challenge'', ''extremism''} = {}"
  proof -
    from that have "\<not> (\<exists>cat \<in> set (categories d).
            cat \<in> {''self_harm'', ''violence'', ''dangerous_challenge'', ''extremism''})"
      by blast
    moreover from that have "\<not> harmfulnessScore d \<ge> 0.95" "\<not> harmfulnessScore d \<ge> 0.85"
      "\<not> harmfulnessScore d \<ge> 0.70" by simp_all
    ultimately show ?thesis unfolding main by simp
  qed
  have crit: "determineUrgency d = Critical" if "0.95 \<le> harmfulnessScore d \<and> harmfulnessScore d \<le> 1"
    using that unfolding main by simp
  from main low crit show ?thesis by blast
qed

theorem determineUrgency_spec_witness:
  "determineUrgency \<lparr>harmfulnessScore = 0.3, categories = [''spam''], confidence = 0.9,
       reasoning = '''', flagged = False\<rparr> = Low
   \<and> determineUrgency \<lparr>harmfulnessScore = 0.97, categories = [''spam''], confidence = 0.9,
       reasoning = '''', flagged = True\<rparr> = Critical
   \<and> determineUrgency \<lparr>harmfulnessScore = 0.8, categories = [''violence''], confidence = 0.9,
       reasoning = '''', flagged = True\<rparr> = Critical
   \<and> determineUrgency \<lparr>harmfulnessScore = 0.9, categories = [], confidence = 0.9,
       reasoning = '''', flagged = True\<rparr> = High
   \<and> determineUrgency \<lparr>harmfulnessScore = 0.7, categories = [], confidence = 0.9,
       reasoning = '''', flagged = True\<rparr> = Medium"
  using determineUrgency_spec [of "\<lparr>harmfulnessScore = 0.3, categories = [''spam''], confidence = 0.9,
       reasoning = '''', flagged = False\<rparr>"]
    determineUrgency_spec [of "\<lparr>harmfulnessScore = 0.97, categories = [''spam''], confidence = 0.9,
       reasoning = '''', flagged = True\<rparr>"]
    determineUrgency_spec [of "\<lparr>harmfulnessScore = 0.8, categories = [''violence''], confidence = 0.9,
       reasoning = '''', flagged = True\<rparr>"]
    determineUrgency_spec [of "\<lparr>harmfulnessScore = 0.9, categories = [], confidence = 0.9,
       reasoning = '''', flagged = True\<rparr>"]
    determineUrgency_spec [of "\<lparr>harmfulnessScore = 0.7, categories = [], confidence = 0.9,
       reasoning = '''', flagged = True\<rparr>"]
  by simp

section \<open>Consolidation of rule actions\<close>

lemma action_key_eq_iff:
  "action_key a = action_key b \<longleftrightarrow> atype a = atype b \<and> severity a = severity b"
  by (cases "atype a"; cases "severity a"; cases "atype b"; cases "severity b")
     (simp_all add: action_key_def)

lemma same_key_same_priority:
  "action_key a = action_key b \<Longrightarrow> getActionPriority a = getActionPriority b"
  by (simp add: action_key_eq_iff getActionPriority_def)

lemma map_set_fresh: "k \<notin> fst ` set m \<Longrightarrow> map_set m k v = m @ [(k, v)]"
  by (induction m) auto

lemma nested_fold_concat:
  "fold (\<lambda>rule actionMap. fold f (actions rule) actionMap) rules m
     = fold f (concat (map actions rules)) m"
  by (induction rules arbitrary: m) simp_all

lemma consolidate_step_seen:
  assumes "map fst m = map action_key (map snd m)" "action_key a \<in> set (map fst m)"
  shows "consolidate_step a m = m"
proof -
  from assms(2) obtain e where e: "map_of m (action_key a) = Some e"
    by (metis (no_types, opaque_lifting) domD dom_map_of_conv_image_fst set_map)
  then have "(action_key a, e) \<in> set m" by (rule map_of_SomeD)
  moreover have "\<forall>p \<in> set m. fst p = action_key (snd p)"
    using assms(1) by (induction m) auto
  ultimately have "action_key a = action_key e" by fastforce
  then have "getActionPriority a = getActionPriority e" by (rule same_key_same_priority)
  with e show ?thesis by (simp add: consolidate_step_def)
qed

lemma consolidate_step_new:
  assumes "action_key a \<notin> set (map fst m)"
  shows "consolidate_step a m = m @ [(action_key a, a)]"
proof -
  from assms have "map_of m (action_key a) = None"
    by (simp add: map_of_eq_None_iff)
  with assms show ?thesis by (simp add: consolidate_step_def map_set_fresh)
qed

lemma fold_consolidate_char:
  "map fst (fold consolidate_step as []) = map action_key (map snd (fold consolidate_step as []))
   \<and> distinct (map fst (fold consolidate_step as []))
   \<and> set (map fst (fold consolidate_step as [])) = action_key ` set as
   \<and> (\<forall>a \<in> set (map snd (fold consolidate_step as [])).
        \<exists>pre post. as = pre @ a # post \<and> action_key a \<notin> action_key ` set pre)"
proof (induction as rule: rev_induct)
  case Nil
  show ?case by simp
next
  case (snoc x xs)
  let ?M = "fold consolidate_step xs []"
  from snoc have keys: "map fst ?M = map action_key (map snd ?M)" by blast
  from snoc have dist: "distinct (map fst ?M)" by blast
  from snoc have dom: "set (map fst ?M) = action_key ` set xs" by blast
  from snoc have first: "\<forall>a \<in> set (map snd ?M).
        \<exists>pre post. xs = pre @ a # post \<and> action_key a \<notin> action_key ` set pre" by blast
  have old: "\<exists>pre post. xs @ [x] = pre @ a # post \<and> action_key a \<notin> action_key ` set pre"
    if "a \<in> set (map snd ?M)" for a
  proof -
    from first that obtain pre post where "xs = pre @ a # post"
      "action_key a \<notin> action_key ` set pre" by blast
    then have "xs @ [x] = pre @ a # (post @ [x])" by simp
    with \<open>action_key a \<notin> action_key ` set pre\<close> show ?thesis by blast
  qed
  show ?case
  proof (cases "action_key x \<in> set (map fst ?M)")
    case True
    with keys have st: "fold consolidate_step (xs @ [x]) [] = ?M"
      by (simp add: consolidate_step_seen)
    from True dom have "set (map fst ?M) = action_key ` set (xs @ [x])" by auto
    with keys dist old show ?thesis unfolding st by blast
  next
    case False
    then have st: "fold consolidate_step (xs @ [x]) [] = ?M @ [(action_key x, x)]"
      by (simp add: consolidate_step_new)
    have "\<exists>pre post. xs @ [x] = pre @ a # post \<and> action_key a \<notin> action_key ` set pre"
      if "a \<in> set (map snd (?M @ [(action_key x, x)]))" for a
    proof (cases "a \<in> set (map snd ?M)")
      case True
      then show ?thesis by (rule old)
    next
      case F: False
      with that have "a = x" by auto
      moreover from False dom have "action_key x \<notin> action_key ` set xs" by simp
      ultimately have "xs @ [x] = xs @ a # [] \<and> action_key a \<notin> action_key ` set xs" by simp
      then show ?thesis by blast
    qed
    moreover from False dist have "distinct (map fst (?M @ [(action_key x, x)]))" by simp
    moreover from dom have "set (map fst (?M @ [(action_key x, x)])) = action_key ` set (xs @ [x])"
      by auto
    moreover from keys have "map fst (?M @ [(action_key x, x)])
         = map action_key (map snd (?M @ [(action_key x, x)]))" by simp
    ultimately show ?thesis unfolding st by blast
  qed
qed

lemma concat_split_index:
  "concat xss = pre @ a # post \<Longrightarrow>
     \<exists>i < length xss. a \<in> set (xss ! i) \<and> (\<forall>j < i. set (xss ! j) \<subseteq> set pre)"
proof (induction xss arbitrary: pre)
  case Nil
  then show ?case by simp
next
  case (Cons ys yss)
  then have eq: "ys @ concat yss = pre @ a # post" by simp
  then consider
    (left) us where "ys = pre @ us" "us @ concat yss = a # post" "us \<noteq> []"
  | (right) us where "ys @ us = pre" "concat yss = us @ a # post"
    by (auto simp: append_eq_append_conv2) (metis append_Nil2 self_append_conv2)
  then show ?case
  proof cases
    case left
    then have "a \<in> set ys" by (cases us) auto
    then show ?thesis by auto
  next
    case right
    from Cons.IH [OF right(2)] obtain i where i: "i < length yss" "a \<in> set (yss ! i)"
      "\<forall>j < i. set (yss ! j) \<subseteq> set us" by blast
    have "\<forall>j < Suc i. set ((ys # yss) ! j) \<subseteq> set pre"
    proof (intro allI impI)
      fix j assume "j < Suc i"
      show "set ((ys # yss) ! j) \<subseteq> set pre"
      proof (cases j)
        case 0
        with right(1) show ?thesis by auto
      next
        case (Suc k)
        with \<open>j < Suc i\<close> i(3) have "set (yss ! k) \<subseteq> set us" by simp
        with right(1) Suc show ?thesis by auto
      qed
    qed
    with i(1,2) have "Suc i < length (ys # yss) \<and> a \<in> set ((ys # yss) ! Suc i)
        \<and> (\<forall>j < Suc i. set ((ys # yss) ! j) \<subseteq> set pre)" by simp
    then show ?thesis by blast
  qed
qed

lemma consolidated_unsorted:
  "consolidateActions rules = sort_key (\<lambda>a. - getActionPriority a)
       (map snd (fold consolidate_step (concat (map actions rules)) []))"
  by (simp add: consolidateActions_def nested_fold_concat)

lemma set_consolidateActions:
  "set (consolidateActions rules) =
     set (map snd (fold consolidate_step (concat (map actions rules)) []))"
  by (simp add: consolidated_unsorted)

lemma distinct_keys_consolidateActions: "distinct (map action_key (consolidateActions rules))"
proof -
  let ?M = "fold consolidate_step (concat (map actions rules)) []"
  from fold_consolidate_char [of "concat (map actions rules)"]
  have "distinct (map action_key (map snd ?M))" by metis
  then have "distinct (map action_key (sort_key (\<lambda>a. - getActionPriority a) (map snd ?M)))"
    by (metis distinct_map distinct_sort set_sort)
  then show ?thesis by (simp only: consolidated_unsorted)
qed

lemma sorted_consolidateActions:
  "sorted_wrt (\<lambda>a b. getActionPriority a \<ge> getActionPriority b) (consolidateActions rules)"
proof -
  have "sorted (map (\<lambda>a. - getActionPriority a) (consolidateActions rules))"
    unfolding consolidated_unsorted by (rule sorted_sort_key)
  then show ?thesis by (simp add: sorted_map)
qed

lemma consolidated_from_first_rule:
  assumes "a \<in> set (consolidateActions rules)"
  shows "\<exists>i < length rules. a \<in> set (actions (rules ! i)) \<and>
           (\<forall>j < i. \<forall>b \<in> set (actions (rules ! j)). action_key b \<noteq> action_key a)"
proof -
  let ?as = "concat (map actions rules)"
  from assms have "a \<in> set (map snd (fold consolidate_step ?as []))"
    by (simp only: set_consolidateActions)
  with fold_consolidate_char [of ?as] obtain pre post where
    split: "?as = pre @ a # post" and fresh: "action_key a \<notin> action_key ` set pre" by blast
  from concat_split_index [OF split] obtain i where i: "i < length (map actions rules)"
    "a \<in> set (map actions rules ! i)" "\<forall>j < i. set (map actions rules ! j) \<subseteq> set pre" by blast
  from i(1) have len: "i < length rules" by simp
  have "\<forall>j < i. \<forall>b \<in> set (actions (rules ! j)). action_key b \<noteq> action_key a"
  proof (intro allI impI ballI)
    fix j b assume "j < i" "b \<in> set (actions (rules ! j))"
    with i(3) len have "b \<in> set pre" by auto
    with fresh show "action_key b \<noteq> action_key a" by (metis image_eqI)
  qed
  with len i(2) show ?thesis by auto
qed

text \<open>
  Claim C4. For rules sorted by descending priority, \<^verbatim>\<open>consolidateActions\<close> keeps one
  action for each (type, severity) pair that occurs in the rules' action lists, the kept
  action comes from a rule whose priority is highest among the rules that contribute the
  pair, and the result is sorted by descending action priority, the product of the type
  weight and the severity weight, where the type weights order
  remove > quarantine > escalate > flag > warn = notify.
\<close>

theorem consolidateActions_highest_priority:
  assumes "sorted_wrt (\<lambda>r s. priority r \<ge> priority s) rules"
  shows "sorted_wrt (\<lambda>a b. getActionPriority a \<ge> getActionPriority b) (consolidateActions rules)
    \<and> distinct (map (\<lambda>a. (atype a, severity a)) (consolidateActions rules))
    \<and> (\<lambda>a. (atype a, severity a)) ` set (consolidateActions rules)
        = (\<lambda>a. (atype a, severity a)) ` (\<Union>r \<in> set rules. set (actions r))
    \<and> (\<forall>a \<in> set (consolidateActions rules).
         \<exists>i < length rules. a \<in> set (actions (rules ! i)) \<and>
           (\<forall>j < length rules.
              (\<exists>b \<in> set (actions (rules ! j)). atype b = atype a \<and> severity b = severity a)
              \<longrightarrow> priority (rules ! j) \<le> priority (rules ! i)))
    \<and> (\<forall>a. getActionPriority a = typePriority (atype a) * severityPriority (severity a))
    \<and> typePriority Remove > typePriority Quarantine
    \<and> typePriority Quarantine > typePriority Escalate
    \<and> typePriority Escalate > typePriority Flag
    \<and> typePriority Flag > typePriority Warn
    \<and> typePriority Warn = typePriority Notify"
proof -
  let ?R = "consolidateActions rules"
  let ?pair = "\<lambda>a. (atype a, severity a)"
  have pair_key: "?pair a = ?pair b \<longleftrightarrow> action_key a = action_key b" for a b
    by (simp add: action_key_eq_iff)
  have one: "distinct (map ?pair ?R)"
  proof -
    have "inj_on action_key (set ?R)" "distinct ?R"
      using distinct_keys_consolidateActions [of rules] by (simp_all add: distinct_map)
    then have "inj_on ?pair (set ?R)"
      unfolding inj_on_def using pair_key by blast
    with \<open>distinct ?R\<close> show ?thesis by (simp add: distinct_map)
  qed
  have all: "?pair ` set ?R = ?pair ` (\<Union>r \<in> set rules. set (actions r))"
  proof -
    let ?as = "concat (map actions rules)"
    have "action_key ` set ?R = action_key ` set ?as"
      using fold_consolidate_char [of ?as] set_consolidateActions [of rules]
      by (metis (no_types, lifting) list.set_map)
    moreover have "set ?as = (\<Union>r \<in> set rules. set (actions r))" by auto
    ultimately have k: "action_key ` set ?R = action_key ` (\<Union>r \<in> set rules. set (actions r))"
      by simp
    show ?thesis
    proof (intro set_eqI iffI)
      fix p assume "p \<in> ?pair ` set ?R"
      then obtain a where a: "a \<in> set ?R" "p = ?pair a" by blast
      then have "action_key a \<in> action_key ` (\<Union>r \<in> set rules. set (actions r))"
        using k by blast
      then obtain b where "b \<in> (\<Union>r \<in> set rules. set (actions r))" "action_key a = action_key b"
        by blast
      with a(2) pair_key show "p \<in> ?pair ` (\<Union>r \<in> set rules. set (actions r))" by blast
    next
      fix p assume "p \<in> ?pair ` (\<Union>r \<in> set rules. set (actions r))"
      then obtain a where a: "a \<in> (\<Union>r \<in> set rules. set (actions r))" "p = ?pair a" by blast
      then have "action_key a \<in> action_key ` set ?R" using k by blast
      then obtain b where "b \<in> set ?R" "action_key a = action_key b" by blast
      with a(2) pair_key show "p \<in> ?pair ` set ?R" by blast
    qed
  qed
  have top: "\<exists>i < length rules. a \<in> set (actions (rules ! i)) \<and>
           (\<forall>j < length rules.
              (\<exists>b \<in> set (actions (rules ! j)). atype b = atype a \<and> severity b = severity a)
              \<longrightarrow> priority (rules ! j) \<le> priority (rules ! i))"
    if "a \<in> set ?R" for a
  proof -
    from consolidated_from_first_rule [OF that] obtain i where i: "i < length rules"
      "a \<in> set (actions (rules ! i))"
      "\<forall>j < i. \<forall>b \<in> set (actions (rules ! j)). action_key b \<noteq> action_key a" by blast
    have "priority (rules ! j) \<le> priority (rules ! i)"
      if j: "j < length rules"
        and b: "\<exists>b \<in> set (actions (rules ! j)). atype b = atype a \<and> severity b = severity a"
      for j
    proof -
      from b obtain b where "b \<in> set (actions (rules ! j))" "action_key b = action_key a"
        by (auto simp: action_key_eq_iff)
      with i(3) have "\<not> j < i" by blast
      then consider "j = i" | "i < j" by linarith
      then show ?thesis
      proof cases
        case 1
        then show ?thesis by simp
      next
        case 2
        from sorted_wrt_nth_less [OF assms 2 j] show ?thesis .
      qed
    qed
    with i(1,2) show ?thesis by blast
  qed
  have prio: "getActionPriority a = typePriority (atype a) * severityPriority (severity a)" for a
    by (cases "atype a"; cases "severity a") (simp_all add: getActionPriority_def num_or_def)
  from sorted_consolidateActions [of rules] one all top prio show ?thesis by simp
qed

theorem consolidateActions_highest_priority_witness:
  "sorted_wrt (\<lambda>r s. priority r \<ge> priority s)
     [\<lparr>rule_id = ''a'', rule_name = ''A'', conditions = no_conditions,
        actions = [\<lparr>atype = Flag, severity = Low, automated = True, reason = ''first''\<rparr>,
                   \<lparr>atype = Remove, severity = Critical, automated = True, reason = ''first''\<rparr>],
        priority = 100, enabled = True\<rparr>,
      \<lparr>rule_id = ''b'', rule_name = ''B'', conditions = no_conditions,
        actions = [\<lparr>atype = Remove, severity = Critical, automated = True, reason = ''second''\<rparr>,
                   \<lparr>atype = Escalate, severity = High, automated = True, reason = ''second''\<rparr>],
        priority = 90, enabled = True\<rparr>]
   \<and> consolidateActions
     [\<lparr>rule_id = ''a'', rule_name = ''A'', conditions = no_conditions,
        actions = [\<lparr>atype = Flag, severity = Low, automated = True, reason = ''first''\<rparr>,
                   \<lparr>atype = Remove, severity = Critical, automated = True, reason = ''first''\<rparr>],
        priority = 100, enabled = True\<rparr>,
      \<lparr>rule_id = ''b'', rule_name = ''B'', conditions = no_conditions,
        actions = [\<lparr>atype = Remove, severity = Critical, automated = True, reason = ''second''\<rparr>,
                   \<lparr>atype = Escalate, severity = High, automated = True, reason = ''second''\<rparr>],
        priority = 90, enabled = True\<rparr>]
     = [\<lparr>atype = Remove, severity = Critical, automated = True, reason = ''first''\<rparr>,
        \<lparr>atype = Escalate, severity = High, automated = True, reason = ''second''\<rparr>,
        \<lparr>atype = Flag, severity = Low, automated = True, reason = ''first''\<rparr>]
   \<and> sorted_wrt (\<lambda>a b. getActionPriority a \<ge> getActionPriority b)
       (consolidateActions
     [\<lparr>rule_id = ''a'', rule_name = ''A'', conditions = no_conditions,
        actions = [\<lparr>atype = Flag, severity = Low, automated = True, reason = ''first''\<rparr>,
                   \<lparr>atype = Remove, severity = Critical, automated = True, reason = ''first''\<rparr>],
        priority = 100, enabled = True\<rparr>,
      \<lparr>rule_id = ''b'', rule_name = ''B'', conditions = no_conditions,
        actions = [\<lparr>atype = Remove, severity = Critical, automated = True, reason = ''second''\<rparr>,
                   \<lparr>atype = Escalate, severity = High, automated = True, reason = ''second''\<rparr>],
        priority = 90, enabled = True\<rparr>])"
proof -
  let ?rules = "[\<lparr>rule_id = ''a'', rule_name = ''A'', conditions = no_conditions,
        actions = [\<lparr>atype = Flag, severity = Low, automated = True, reason = ''first''\<rparr>,
                   \<lparr>atype = Remove, severity = Critical, automated = True, reason = ''first''\<rparr>],
        priority = 100, enabled = True\<rparr>,
      \<lparr>rule_id = ''b'', rule_name = ''B'', conditions = no_conditions,
        actions = [\<lparr>atype = Remove, severity = Critical, automated = True, reason = ''second''\<rparr>,
                   \<lparr>atype = Escalate, severity = High, automated = True, reason = ''second''\<rparr>],
        priority = 90, enabled = True\<rparr>]"
  have srt: "sorted_wrt (\<lambda>r s. priority r \<ge> priority s) ?rules" by simp
  have val: "consolidateActions ?rules
     = [\<lparr>atype = Remove, severity = Critical, automated = True, reason = ''first''\<rparr>,
        \<lparr>atype = Escalate, severity = High, automated = True, reason = ''second''\<rparr>,
        \<lparr>atype = Flag, severity = Low, automated = True, reason = ''first''\<rparr>]"
    by (simp add: consolidateActions_def consolidate_step_def action_key_def
          getActionPriority_def num_or_def)
  from consolidateActions_highest_priority [OF srt] srt val show ?thesis by blast
qed

lemma fold_consolidate_distinct:
  "distinct (map action_key as) \<Longrightarrow>
     fold consolidate_step as [] = map (\<lambda>a. (action_key a, a)) as"
proof (induction as rule: rev_induct)
  case Nil
  show ?case by simp
next
  case (snoc x xs)
  then have IH: "fold consolidate_step xs [] = map (\<lambda>a. (action_key a, a)) xs" by simp
  from snoc.prems have "action_key x \<notin> set (map fst (map (\<lambda>a. (action_key a, a)) xs))"
    by (simp add: comp_def)
  then show ?case by (simp add: IH consolidate_step_new)
qed

text \<open>
  Claim C9. Consolidation is idempotent: its result has no two actions with the same
  (type, severity) pair, and consolidating again the rules that each carry one action of
  the result, in the result's order, gives the result back.
\<close>

theorem consolidateActions_idempotent:
  "distinct (map (\<lambda>a. (atype a, severity a)) (consolidateActions rules))
   \<and> (\<forall>rs. map actions rs = map (\<lambda>a. [a]) (consolidateActions rules)
         \<longrightarrow> consolidateActions rs = consolidateActions rules)"
proof -
  let ?R = "consolidateActions rules"
  have d: "distinct (map action_key ?R)" by (rule distinct_keys_consolidateActions)
  have one: "distinct (map (\<lambda>a. (atype a, severity a)) ?R)"
  proof -
    from d have "inj_on action_key (set ?R)" "distinct ?R" by (simp_all add: distinct_map)
    then have "inj_on (\<lambda>a. (atype a, severity a)) (set ?R)"
      unfolding inj_on_def by (simp add: action_key_eq_iff)
    with \<open>distinct ?R\<close> show ?thesis by (simp add: distinct_map)
  qed
  have again: "consolidateActions rs = ?R" if rs: "map actions rs = map (\<lambda>a. [a]) ?R" for rs
  proof -
    from rs have "concat (map actions rs) = ?R" by simp
    then have "consolidateActions rs = sort_key (\<lambda>a. - getActionPriority a)
        (map snd (fold consolidate_step ?R []))"
      by (simp only: consolidated_unsorted)
    also have "map snd (fold consolidate_step ?R []) = ?R"
      by (simp add: fold_consolidate_distinct [OF d] comp_def)
    also have "sort_key (\<lambda>a. - getActionPriority a) ?R = ?R"
    proof (rule sort_key_id_if_sorted)
      show "sorted (map (\<lambda>a. - getActionPriority a) ?R)"
        unfolding consolidated_unsorted by (rule sorted_sort_key)
    qed
    finally show ?thesis .
  qed
  from one again show ?thesis by blast
qed

lemma default_rules_self_harm:
  "findApplicableRules getDefaultEscalationRules
     \<lparr>harmfulnessScore = 0.97, categories = [''self_harm''], confidence = 0.9,
       reasoning = [], flagged = True\<rparr>
     \<lparr>platform = ''tiktok'',
       engagement = \<lparr>likes = 1, shares = 2, comments = 3, views = None\<rparr>\<rparr>
   = [getDefaultEscalationRules ! 0, getDefaultEscalationRules ! 4]"
  by (simp add: findApplicableRules_def getDefaultEscalationRules_def rule_applies_def
      no_conditions_def checkViralityIndicators_def)

theorem consolidateActions_idempotent_witness:
  "map actions
     [\<lparr>rule_id = ''r1'', rule_name = ''r1'', conditions = no_conditions,
       actions = [\<lparr>atype = Remove, severity = Critical, automated = True,
                   reason = ''Self-harm content detected''\<rparr>],
       priority = 3, enabled = True\<rparr>,
      \<lparr>rule_id = ''r2'', rule_name = ''r2'', conditions = no_conditions,
       actions = [\<lparr>atype = Escalate, severity = Medium, automated = True,
                   reason = ''Low confidence high harm - needs human review''\<rparr>],
       priority = 2, enabled = True\<rparr>,
      \<lparr>rule_id = ''r3'', rule_name = ''r3'', conditions = no_conditions,
       actions = [\<lparr>atype = Notify, severity = Critical, automated = True,
                   reason = ''Mental health crisis alert''\<rparr>],
       priority = 1, enabled = True\<rparr>]
   = map (\<lambda>a. [a])
       (consolidateActions [getDefaultEscalationRules ! 0, getDefaultEscalationRules ! 4])
   \<and> consolidateActions
     [\<lparr>rule_id = ''r1'', rule_name = ''r1'', conditions = no_conditions,
       actions = [\<lparr>atype = Remove, severity = Critical, automated = True,
                   reason = ''Self-harm content detected''\<rparr>],
       priority = 3, enabled = True\<rparr>,
      \<lparr>rule_id = ''r2'', rule_name = ''r2'', conditions = no_conditions,
       actions = [\<lparr>atype = Escalate, severity = Medium, automated = True,
                   reason = ''Low confidence high harm - needs human review''\<rparr>],
       priority = 2, enabled = True\<rparr>,
      \<lparr>rule_id = ''r3'', rule_name = ''r3'', conditions = no_conditions,
       actions = [\<lparr>atype = Notify, severity = Critical, automated = True,
                   reason = ''Mental health crisis alert''\<rparr>],
       priority = 1, enabled = True\<rparr>]
   = consolidateActions [getDefaultEscalationRules ! 0, getDefaultEscalationRules ! 4]"
proof -
  let ?rules = "[getDefaultEscalationRules ! 0, getDefaultEscalationRules ! 4]"
  let ?rs = "[\<lparr>rule_id = ''r1'', rule_name = ''r1'', conditions = no_conditions,
       actions = [\<lparr>atype = Remove, severity = Critical, automated = True,
                   reason = ''Self-harm content detected''\<rparr>],
       priority = 3, enabled = True\<rparr>,
      \<lparr>rule_id = ''r2'', rule_name = ''r2'', conditions = no_conditions,
       actions = [\<lparr>atype = Escalate, severity = Medium, automated = True,
                   reason = ''Low confidence high harm - needs human review''\<rparr>],
       priority = 2, enabled = True\<rparr>,
      \<lparr>rule_id = ''r3'', rule_name = ''r3'', conditions = no_conditions,
       actions = [\<lparr>atype = Notify, severity = Critical, automated = True,
                   reason = ''Mental health crisis alert''\<rparr>],
       priority = 1, enabled = True\<rparr>]"
  have val: "consolidateActions ?rules
      = [\<lparr>atype = Remove, severity = Critical, automated = True,
                   reason = ''Self-harm content detected''\<rparr>,
         \<lparr>atype = Escalate, severity = Medium, automated = True,
                   reason = ''Low confidence high harm - needs human review''\<rparr>,
         \<lparr>atype = Notify, severity = Critical, automated = True,
                   reason = ''Mental health crisis alert''\<rparr>]"
    by (simp add: consolidateActions_def consolidate_step_def action_key_def
          getActionPriority_def num_or_def getDefaultEscalationRules_def)
  have h: "map actions ?rs = map (\<lambda>a. [a]) (consolidateActions ?rules)"
    by (simp add: val)
  from consolidateActions_idempotent [of ?rules] h
  have "consolidateActions ?rs = consolidateActions ?rules" by blast
  with h show ?thesis by blast
qed

section \<open>Rule matching\<close>

text \<open>
  Claim C10. On a content item whose engagement has no \<^verbatim>\<open>views\<close>,
  \<^verbatim>\<open>checkViralityIndicators\<close> returns a value (\<^verbatim>\<open>true\<close> or \<^verbatim>\<open>undefined\<close>, never an
  error) that is truthy exactly when likes + shares + comments exceed 1000 or shares
  exceed 100: the views clause does not hold and the missing field does not make the
  item viral.
\<close>

theorem checkViralityIndicators_without_views:
  assumes "views (engagement content) = None"
  shows "truthy (checkViralityIndicators content)
           = (likes (engagement content) + shares (engagement content)
                + comments (engagement content) > 1000
              \<or> shares (engagement content) > 100)
       \<and> checkViralityIndicators content
           = (if likes (engagement content) + shares (engagement content)
                   + comments (engagement content) > 1000
                 \<or> shares (engagement content) > 100
              then JBool True else JUndefined)"
  using assms by (simp add: checkViralityIndicators_def Let_def)

theorem checkViralityIndicators_without_views_witness:
  "views (engagement \<lparr>platform = ''tiktok'',
       engagement = \<lparr>likes = 10, shares = 150, comments = 5, views = None\<rparr>\<rparr>) = None
   \<and> truthy (checkViralityIndicators \<lparr>platform = ''tiktok'',
       engagement = \<lparr>likes = 10, shares = 150, comments = 5, views = None\<rparr>\<rparr>)
   \<and> \<not> truthy (checkViralityIndicators \<lparr>platform = ''tiktok'',
       engagement = \<lparr>likes = 10, shares = 50, comments = 5, views = None\<rparr>\<rparr>)"
  using checkViralityIndicators_without_views [of "\<lparr>platform = ''tiktok'',
       engagement = \<lparr>likes = 10, shares = 150, comments = 5, views = None\<rparr>\<rparr>"]
    checkViralityIndicators_without_views [of "\<lparr>platform = ''tiktok'',
       engagement = \<lparr>likes = 10, shares = 50, comments = 5, views = None\<rparr>\<rparr>"]
  by simp

lemma rule_applies_iff:
  "rule_applies d c rule \<longleftrightarrow>
     enabled rule
     \<and> (\<forall>hs m. cond_harmfulnessScore (conditions rule) = Some hs \<and> range_min hs = Some m \<and> m \<noteq> 0
           \<longrightarrow> m \<le> harmfulnessScore d)
     \<and> (\<forall>hs m. cond_harmfulnessScore (conditions rule) = Some hs \<and> range_max hs = Some m \<and> m \<noteq> 0
           \<longrightarrow> harmfulnessScore d \<le> m)
     \<and> (\<forall>m. cond_confidence (conditions rule) = Some (Some m) \<and> m \<noteq> 0 \<longrightarrow> m \<le> confidence d)
     \<and> (\<forall>cats. cond_categories (conditions rule) = Some cats \<and> cats \<noteq> []
           \<longrightarrow> set cats \<inter> set (categories d) \<noteq> {})
     \<and> (\<forall>ps. cond_platforms (conditions rule) = Some ps \<and> ps \<noteq> [] \<longrightarrow> platform c \<in> set ps)
     \<and> (cond_viralityIndicators (conditions rule) = Some True \<longrightarrow> truthy (checkViralityIndicators c))"
  unfolding rule_applies_def Let_def list_ex_iff
  by (auto split: option.splits)

lemma findApplicableRules_sorted:
  "sorted_wrt (\<lambda>r s. priority r \<ge> priority s) (findApplicableRules rules d c)"
proof -
  have "sorted (map (\<lambda>r. - priority r) (findApplicableRules rules d c))"
    unfolding findApplicableRules_def by (rule sorted_sort_key)
  then show ?thesis by (simp add: sorted_map)
qed

text \<open>
  Claim C5, evaluated where it fails. A rule whose only condition is a harmfulness score of
  at most 0 is selected by \<^verbatim>\<open>findApplicableRules\<close> for a detection with score 0.9,
  although the bound does not hold: the guard \<^verbatim>\<open>max && score > max\<close> skips a bound
  equal to 0.
\<close>

theorem findApplicableRules_zero_max_ignored:
  "findApplicableRules
     [\<lparr>rule_id = ''only_harmless'', rule_name = ''Score must be 0'',
       conditions = no_conditions\<lparr>cond_harmfulnessScore :=
          Some \<lparr>range_min = None, range_max = Some 0\<rparr>\<rparr>,
       actions = [\<lparr>atype = Flag, severity = Low, automated = True, reason = ''harmless''\<rparr>],
       priority = 10, enabled = True\<rparr>]
     \<lparr>harmfulnessScore = 0.9, categories = [''violence''], confidence = 0.9,
       reasoning = [], flagged = True\<rparr>
     \<lparr>platform = ''tiktok'',
       engagement = \<lparr>likes = 1, shares = 2, comments = 3, views = None\<rparr>\<rparr>
   = [\<lparr>rule_id = ''only_harmless'', rule_name = ''Score must be 0'',
       conditions = no_conditions\<lparr>cond_harmfulnessScore :=
          Some \<lparr>range_min = None, range_max = Some 0\<rparr>\<rparr>,
       actions = [\<lparr>atype = Flag, severity = Low, automated = True, reason = ''harmless''\<rparr>],
       priority = 10, enabled = True\<rparr>]
   \<and> \<not> harmfulnessScore \<lparr>harmfulnessScore = 0.9, categories = [''violence''], confidence = 0.9,
       reasoning = [], flagged = True\<rparr> \<le> 0"
  by (simp add: findApplicableRules_def rule_applies_def no_conditions_def)

section \<open>Removal below the auto-action threshold\<close>

lemma findByIdAndUpdate_queue [simp]:
  "escalationQueue (findByIdAndUpdate c f st) = escalationQueue st"
  "logged (findByIdAndUpdate c f st) = logged st"
  "response_log (findByIdAndUpdate c f st) = response_log st"
  by (simp_all add: findByIdAndUpdate_def split: option.split)

lemma findByIdAndUpdate_contents:
  "contents (findByIdAndUpdate c f st) c' =
     (if c' = c then map_option (\<lambda>d. d\<lparr>meta := f (meta d)\<rparr>) (contents st c) else contents st c')"
  by (simp add: findByIdAndUpdate_def split: option.split)

lemma log_line_fields [simp]:
  "contents (log_line e st) = contents st"
  "escalationQueue (log_line e st) = escalationQueue st"
  "logged (log_line e st) = logged st @ [e]"
  "response_log (log_line e st) = response_log st"
  by (simp_all add: log_line_def)

lemma executeAction_keeps_removed:
  assumes "harmfulnessScore d < thr"
  shows "removed_of (executeAction thr now cid action d st) = removed_of st"
proof (rule ext)
  fix c
  show "removed_of (executeAction thr now cid action d st) c = removed_of st c"
    using assms
    by (cases "atype action")
       (auto simp: removed_of_def executeAction_def flagContent_def removeContent_def
          escalateToHuman_def warnUser_def quarantineContent_def notifyStakeholders_def
          findByIdAndUpdate_contents Let_def option.map_comp comp_def
          split: option.split)
qed

text \<open>
  Claim C1. When the executor handles a \<^verbatim>\<open>remove\<close> action and the harmfulness score
  of the detection is strictly below the auto-action threshold, no document's removed
  marker changes; the document with the content id (when stored) gets the escalation
  markers, one job with the action is appended to the escalation queue, and the
  override is logged before the escalation.
\<close>

theorem remove_below_threshold_escalates:
  assumes "atype action = Remove" and "harmfulnessScore d < autoActionThreshold"
  shows "removed_of (executeAction autoActionThreshold now contentId action d st) = removed_of st
    \<and> contents (executeAction autoActionThreshold now contentId action d st) contentId
        = map_option (\<lambda>c. c\<lparr>meta := (meta c)\<lparr>meta_escalated := True,
                                 meta_escalationReason := Some (reason action),
                                 meta_escalatedAt := Some now,
                                 meta_reviewPriority := Some (severity action)\<rparr>\<rparr>)
            (contents st contentId)
    \<and> escalationQueue (executeAction autoActionThreshold now contentId action d st)
        = escalationQueue st @
            [\<lparr>job_contentId = contentId, job_action = action, job_detectionResult = d,
              job_priority = getActionPriority action\<rparr>]
    \<and> logged (executeAction autoActionThreshold now contentId action d st)
        = logged st @ [BelowAutoActionThreshold contentId (harmfulnessScore d) autoActionThreshold,
                       ContentEscalated contentId (severity action)]"
proof -
  let ?st' = "executeAction autoActionThreshold now contentId action d st"
  have run: "?st' = escalateToHuman now contentId action d
       (log_line (BelowAutoActionThreshold contentId (harmfulnessScore d) autoActionThreshold) st)"
    using assms by (simp add: executeAction_def removeContent_def)
  have "removed_of ?st' = removed_of st"
    using assms(2) by (rule executeAction_keeps_removed)
  moreover have "contents ?st' contentId
        = map_option (\<lambda>c. c\<lparr>meta := (meta c)\<lparr>meta_escalated := True,
                                 meta_escalationReason := Some (reason action),
                                 meta_escalatedAt := Some now,
                                 meta_reviewPriority := Some (severity action)\<rparr>\<rparr>)
            (contents st contentId)"
    unfolding run by (simp add: escalateToHuman_def Let_def findByIdAndUpdate_contents)
  moreover have "escalationQueue ?st' = escalationQueue st @
            [\<lparr>job_contentId = contentId, job_action = action, job_detectionResult = d,
              job_priority = getActionPriority action\<rparr>]"
    unfolding run by (simp add: escalateToHuman_def Let_def)
  moreover have "logged ?st'
        = logged st @ [BelowAutoActionThreshold contentId (harmfulnessScore d) autoActionThreshold,
                       ContentEscalated contentId (severity action)]"
    unfolding run by (simp add: escalateToHuman_def Let_def)
  ultimately show ?thesis by blast
qed

lemma fold_executeAction_keeps_removed:
  assumes "harmfulnessScore d < thr"
  shows "removed_of (fold (\<lambda>action s. executeAction thr now cid action d s) acts st) = removed_of st"
  using assms by (induction acts arbitrary: st) (simp_all add: executeAction_keeps_removed)

lemma processContentResponse_never_removes:
  assumes "harmfulnessScore d < thr"
    and "processContentResponse rules thr now cid d st = Inr st'"
  shows "removed_of st' = removed_of st"
proof -
  from assms(2) obtain content where "contents st cid = Some content"
    by (auto simp: processContentResponse_def split: option.splits)
  with assms(2) have "st' = logResponseActions now cid
      (consolidateActions (findApplicableRules rules d (doc content))) d
      (fold (\<lambda>action s. executeAction thr now cid action d s)
         (consolidateActions (findApplicableRules rules d (doc content))) st)"
    by (simp add: processContentResponse_def Let_def)
  then have "removed_of st' = removed_of (fold (\<lambda>action s. executeAction thr now cid action d s)
         (consolidateActions (findApplicableRules rules d (doc content))) st)"
    by (simp add: removed_of_def logResponseActions_def fun_eq_iff)
  with assms(1) show ?thesis by (simp add: fold_executeAction_keeps_removed)
qed

theorem remove_below_threshold_escalates_witness:
  "atype \<lparr>atype = Remove, severity = Critical, automated = True,
           reason = ''Self-harm content detected''\<rparr> = Remove
   \<and> harmfulnessScore \<lparr>harmfulnessScore = 0.8, categories = [''self_harm''], confidence = 0.9,
        reasoning = [], flagged = True\<rparr> < default_autoActionThreshold
   \<and> removed_of (executeAction default_autoActionThreshold 7 ''c1''
        \<lparr>atype = Remove, severity = Critical, automated = True,
           reason = ''Self-harm content detected''\<rparr>
        \<lparr>harmfulnessScore = 0.8, categories = [''self_harm''], confidence = 0.9,
        reasoning = [], flagged = True\<rparr>
        \<lparr>contents = [''c1'' \<mapsto> \<lparr>doc = \<lparr>platform = ''tiktok'',
             engagement = \<lparr>likes = 1, shares = 2, comments = 3, views = None\<rparr>\<rparr>,
             meta = blank_meta\<rparr>],
         escalationQueue = [], logged = [], response_log = []\<rparr>) ''c1'' = Some False
   \<and> map_option (\<lambda>c. meta_escalated (meta c)) (contents (executeAction default_autoActionThreshold 7 ''c1''
        \<lparr>atype = Remove, severity = Critical, automated = True,
           reason = ''Self-harm content detected''\<rparr>
        \<lparr>harmfulnessScore = 0.8, categories = [''self_harm''], confidence = 0.9,
        reasoning = [], flagged = True\<rparr>
        \<lparr>contents = [''c1'' \<mapsto> \<lparr>doc = \<lparr>platform = ''tiktok'',
             engagement = \<lparr>likes = 1, shares = 2, comments = 3, views = None\<rparr>\<rparr>,
             meta = blank_meta\<rparr>],
         escalationQueue = [], logged = [], response_log = []\<rparr>) ''c1'') = Some True
   \<and> length (escalationQueue (executeAction default_autoActionThreshold 7 ''c1''
        \<lparr>atype = Remove, severity = Critical, automated = True,
           reason = ''Self-harm content detected''\<rparr>
        \<lparr>harmfulnessScore = 0.8, categories = [''self_harm''], confidence = 0.9,
        reasoning = [], flagged = True\<rparr>
        \<lparr>contents = [''c1'' \<mapsto> \<lparr>doc = \<lparr>platform = ''tiktok'',
             engagement = \<lparr>likes = 1, shares = 2, comments = 3, views = None\<rparr>\<rparr>,
             meta = blank_meta\<rparr>],
         escalationQueue = [], logged = [], response_log = []\<rparr>)) = 1"
proof -
  let ?a = "\<lparr>atype = Remove, severity = Critical, automated = True,
           reason = ''Self-harm content detected''\<rparr>"
  let ?d = "\<lparr>harmfulnessScore = 0.8, categories = [''self_harm''], confidence = 0.9,
        reasoning = [], flagged = True\<rparr>"
  let ?st = "\<lparr>contents = [''c1'' \<mapsto> \<lparr>doc = \<lparr>platform = ''tiktok'',
             engagement = \<lparr>likes = 1, shares = 2, comments = 3, views = None\<rparr>\<rparr>,
             meta = blank_meta\<rparr>],
         escalationQueue = [], logged = [], response_log = []\<rparr>"
  have h1: "atype ?a = Remove" by simp
  have h2: "harmfulnessScore ?d < default_autoActionThreshold"
    by (simp add: default_autoActionThreshold_def)
  note t = remove_below_threshold_escalates [OF h1 h2, of 7 "''c1''" ?st]
  from t have "removed_of (executeAction default_autoActionThreshold 7 ''c1'' ?a ?d ?st) ''c1''
      = Some False"
    by (simp add: removed_of_def blank_meta_def)
  moreover from t have "map_option (\<lambda>c. meta_escalated (meta c))
      (contents (executeAction default_autoActionThreshold 7 ''c1'' ?a ?d ?st) ''c1'') = Some True"
    by simp
  moreover from t have
    "length (escalationQueue (executeAction default_autoActionThreshold 7 ''c1'' ?a ?d ?st)) = 1"
    by simp
  ultimately show ?thesis using h1 h2 by blast
qed

section \<open>Rounding to a double\<close>

lemma expo_bounds:
  assumes "0 < x"
  shows "2 powi expo x \<le> x \<and> x < 2 powi (expo x + 1)"
proof (cases "1 \<le> x")
  case True
  define n where "n = \<lfloor>x\<rfloor>"
  from True have n: "0 < n" by (simp add: n_def)
  from bitlen_bounds [OF n] have lo: "2 ^ nat (bitlen n - 1) \<le> n" and hi: "n < 2 ^ nat (bitlen n)"
    by simp_all
  from n have b: "1 \<le> bitlen n" by (simp add: bitlen_alt_def)
  have e: "expo x = bitlen n - 1" using True by (simp add: expo_def n_def)
  have "2 powi (bitlen n - 1) = (2::real) ^ nat (bitlen n - 1)"
    using b by (simp add: power_int_def)
  also have "\<dots> = of_int (2 ^ nat (bitlen n - 1))" by simp
  also have "\<dots> \<le> of_int n" using lo by (simp only: of_int_le_iff)
  also have "\<dots> \<le> x" by (simp add: n_def)
  finally have 1: "2 powi expo x \<le> x" by (simp add: e)
  have "x < of_int (n + 1)" by (simp add: n_def)
  also have "\<dots> \<le> of_int (2 ^ nat (bitlen n))" using hi by (simp only: of_int_le_iff)
  also have "\<dots> = (2::real) ^ nat (bitlen n)" by simp
  also have "\<dots> = 2 powi (bitlen n)" using b by (simp add: power_int_def)
  finally have 2: "x < 2 powi (expo x + 1)" by (simp add: e)
  from 1 2 show ?thesis ..
next
  case False
  define y where "y = 1 / x"
  define m where "m = \<lceil>y\<rceil> - 1"
  from False assms have y1: "1 < y" by (simp add: y_def)
  then have m: "0 < m" unfolding m_def by linarith
  from bitlen_bounds [OF m] have lo: "2 ^ nat (bitlen m - 1) \<le> m" and hi: "m < 2 ^ nat (bitlen m)"
    by simp_all
  from m have b: "1 \<le> bitlen m" by (simp add: bitlen_alt_def)
  have e: "expo x = - bitlen m" using False by (simp add: expo_def m_def y_def)
  have my: "of_int m < y" "y \<le> of_int m + 1" unfolding m_def by linarith+
  have "y \<le> of_int (m + 1)" using my by simp
  also have "\<dots> \<le> of_int (2 ^ nat (bitlen m))" using hi by (simp only: of_int_le_iff)
  also have "\<dots> = (2::real) ^ nat (bitlen m)" by simp
  also have "\<dots> = 2 powi (bitlen m)" using b by (simp add: power_int_def)
  finally have "y \<le> 2 powi (bitlen m)" .
  then have "1 / 2 powi (bitlen m) \<le> 1 / y"
    using y1 by (intro divide_left_mono) (auto intro!: mult_pos_pos)
  then have 1: "2 powi expo x \<le> x" using assms by (simp add: e y_def power_int_minus field_simps)
  have "2 powi (bitlen m - 1) = (2::real) ^ nat (bitlen m - 1)" using b by (simp add: power_int_def)
  also have "\<dots> = of_int (2 ^ nat (bitlen m - 1))" by simp
  also have "\<dots> \<le> of_int m" using lo by (simp only: of_int_le_iff)
  also have "\<dots> < y" by (rule my)
  finally have "2 powi (bitlen m - 1) < y" .
  then have "1 / y < 1 / 2 powi (bitlen m - 1)"
    using y1 by (intro divide_strict_left_mono) (auto intro!: mult_pos_pos)
  moreover have "1 / 2 powi (bitlen m - 1) = (2::real) powi (expo x + 1)"
  proof -
    have "(2::real) powi (expo x + 1) = 2 powi (- (bitlen m - 1))" by (simp add: e)
    also have "\<dots> = inverse (2 powi (bitlen m - 1))" by (rule power_int_minus)
    finally show ?thesis by (simp add: inverse_eq_divide)
  qed
  ultimately have 2: "x < 2 powi (expo x + 1)" using assms by (simp add: y_def)
  from 1 2 show ?thesis ..
qed

lemma rnd_zero [simp]: "rnd 0 = Fin 0"
  by (simp add: rnd_def)

lemma round_even_ge_floor: "\<lfloor>r\<rfloor> \<le> round_even r"
  by (simp add: round_even_def Let_def)

lemma round_even_le_ceiling: "round_even r \<le> \<lfloor>r\<rfloor> + 1"
  by (simp add: round_even_def Let_def)

lemma rnd_lower:
  assumes "2 powi k \<le> x" and "- 1022 \<le> k"
  shows "rnd x = PInf \<or> (\<exists>y. rnd x = Fin y \<and> 2 powi k \<le> y)"
proof -
  have x: "0 < x" using assms(1) by (smt (verit) zero_less_power_int)
  from expo_bounds [OF x] have lo: "2 powi expo x \<le> x" and hi: "x < 2 powi (expo x + 1)"
    by simp_all
  from assms(1) hi have "(2::real) powi k < 2 powi (expo x + 1)" by linarith
  have "k < expo x + 1"
  proof (rule ccontr)
    assume "\<not> k < expo x + 1"
    then have "expo x + 1 \<le> k" by simp
    then have "(2::real) powi (expo x + 1) \<le> 2 powi k" by (rule power_int_increasing) simp
    with \<open>(2::real) powi k < 2 powi (expo x + 1)\<close> show False by linarith
  qed
  then have ke: "k \<le> expo x" by simp
  with assms(2) have e: "max (expo x) (- 1022) = expo x" by simp
  define u :: real where "u = 2 powi (expo x - 52)"
  have u: "0 < u" by (simp add: u_def)
  have split: "2 powi expo x = (2::real) ^ 52 * u"
  proof -
    have "(2::real) powi expo x = 2 powi (52 + (expo x - 52))" by simp
    also have "\<dots> = 2 powi 52 * 2 powi (expo x - 52)" by (rule power_int_add) simp
    finally show ?thesis by (simp add: u_def)
  qed
  with lo u have "(2::real) ^ 52 \<le> x / u" by (simp add: field_simps)
  then have "(2::int) ^ 52 \<le> \<lfloor>x / u\<rfloor>" by (simp add: le_floor_iff)
  with round_even_ge_floor [of "x / u"] have q: "(2::int) ^ 52 \<le> round_even (x / u)" by linarith
  define y where "y = of_int (round_even (x / u)) * u"
  from q have "of_int ((2::int) ^ 52) \<le> (of_int (round_even (x / u)) :: real)"
    by (simp only: of_int_le_iff)
  then have "(2::real) ^ 52 \<le> of_int (round_even (x / u))" by simp
  with u have "2 ^ 52 * u \<le> y" unfolding y_def by (simp add: mult_right_mono)
  moreover have "(2::real) powi k \<le> 2 powi expo x"
    using ke by (simp add: power_int_increasing)
  ultimately have y: "2 powi k \<le> y" using split by linarith
  have "rnd x = (if 2 powi 1024 \<le> \<bar>y\<bar> then PInf else Fin y)"
    using x by (simp add: rnd_def e Let_def u_def y_def)
  with y show ?thesis by auto
qed

lemma jsnum_ops_check:
  "jadd PInf NInf = NaN" "jadd (Fin 1) PInf = PInf" "jadd NInf (Fin 1) = NInf"
  "jadd NaN PInf = NaN" "jadd PInf NaN = NaN"
  "jdiv (Fin 1) (Fin 0) = PInf" "jdiv (Fin 0) (Fin 0) = NaN" "jdiv (Fin (-1)) (Fin 0) = NInf"
  "jdiv PInf (Fin 2) = PInf" "jdiv PInf (Fin (-2)) = NInf" "jdiv NInf (Fin 2) = NInf"
  "jdiv (Fin 1) PInf = Fin 0" "jdiv PInf PInf = NaN" "jdiv NaN (Fin 1) = NaN" "jdiv (Fin 1) NaN = NaN"
  "jmul PInf (Fin 0) = NaN" "jmul PInf (Fin (-1)) = NInf" "jmul NInf NInf = PInf"
  by (simp_all add: jadd_def jdiv_def jmul_def)

lemma jadd_Fin [simp]: "jadd (Fin x) (Fin y) = rnd (x + y)"
  by (simp add: jadd_def)

lemma jsub_Fin [simp]: "jsub (Fin x) (Fin y) = rnd (x - y)"
  by (simp add: jsub_def jadd_def)

lemma jmul_Fin [simp]: "jmul (Fin x) (Fin y) = rnd (x * y)"
  by (simp add: jmul_def)

lemma jdiv_Fin [simp]:
  "jdiv (Fin x) (Fin y) =
     (if y = 0 then (if x = 0 then NaN else if 0 < x then PInf else NInf) else rnd (x / y))"
  by (simp add: jdiv_def)

lemma jdiv_PInf_Fin [simp]: "jdiv PInf (Fin y) = (if 0 \<le> y then PInf else NInf)"
  by (simp add: jdiv_def)

lemma jmin_Fin [simp]: "jmin (Fin x) (Fin y) = Fin (min x y)"
  by (simp add: jmin_def min_def)

lemma jge_Fin [simp]: "jge (Fin x) (Fin y) = (y \<le> x)"
  by (simp add: jge_def)

lemma round_even_error: "\<bar>of_int (round_even r) - r\<bar> \<le> 1 / 2"
proof -
  have "of_int \<lfloor>r\<rfloor> \<le> r" "r < of_int \<lfloor>r\<rfloor> + 1" by linarith+
  then show ?thesis
    by (auto simp: round_even_def Let_def abs_le_iff)
qed

lemma rnd_error:
  assumes "\<bar>x\<bar> < 2 powi (k + 1)" and "k \<le> 1022"
  shows "\<exists>y. rnd x = Fin y \<and> \<bar>y - x\<bar> \<le> 2 powi (max k (- 1022) - 53)"
proof (cases "x = 0")
  case True
  then show ?thesis by simp
next
  case False
  then have pos: "0 < \<bar>x\<bar>" by simp
  define e where "e = max (expo \<bar>x\<bar>) (- 1022)"
  define u :: real where "u = 2 powi (e - 52)"
  define y where "y = of_int (round_even (x / u)) * u"
  have u: "0 < u" by (simp add: u_def)
  from expo_bounds [OF pos] have "2 powi expo \<bar>x\<bar> \<le> \<bar>x\<bar>" by simp
  with assms(1) have "(2::real) powi expo \<bar>x\<bar> < 2 powi (k + 1)" by linarith
  have "expo \<bar>x\<bar> < k + 1"
  proof (rule ccontr)
    assume "\<not> expo \<bar>x\<bar> < k + 1"
    then have "k + 1 \<le> expo \<bar>x\<bar>" by simp
    then have "(2::real) powi (k + 1) \<le> 2 powi expo \<bar>x\<bar>" by (rule power_int_increasing) simp
    with \<open>(2::real) powi expo \<bar>x\<bar> < 2 powi (k + 1)\<close> show False by linarith
  qed
  then have eK: "e \<le> max k (- 1022)" by (simp add: e_def)
  have half: "u / 2 = 2 powi (e - 53)"
  proof -
    have "(2::real) powi (e - 52) = 2 powi (1 + (e - 53))" by simp
    also have "\<dots> = 2 powi 1 * 2 powi (e - 53)" by (rule power_int_add) simp
    finally show ?thesis by (simp add: u_def)
  qed
  have "y - x = (of_int (round_even (x / u)) - x / u) * u"
    using u by (simp add: y_def field_simps)
  then have "\<bar>y - x\<bar> = \<bar>of_int (round_even (x / u)) - x / u\<bar> * u"
    using u by (simp add: abs_mult)
  also have "\<dots> \<le> (1 / 2) * u"
    using round_even_error [of "x / u"] u by (intro mult_right_mono) simp_all
  also have "\<dots> = 2 powi (e - 53)" using half by simp
  also have "\<dots> \<le> 2 powi (max k (- 1022) - 53)"
    using eK by (intro power_int_increasing) simp_all
  finally have err: "\<bar>y - x\<bar> \<le> 2 powi (max k (- 1022) - 53)" .
  have "(2::real) powi (max k (- 1022) - 53) \<le> 2 powi 969"
    using assms(2) by (intro power_int_increasing) simp_all
  moreover have "(2::real) powi (k + 1) \<le> 2 powi 1023"
    using assms(2) by (intro power_int_increasing) simp_all
  ultimately have "\<bar>y\<bar> < 2 powi 1023 + 2 powi 969" using err assms(1) by linarith
  also have "\<dots> \<le> (2::real) powi 1024" by simp
  finally have "\<not> 2 powi 1024 \<le> \<bar>y\<bar>" by simp
  then have "rnd x = Fin y"
    using False by (simp add: rnd_def Let_def e_def [symmetric] u_def [symmetric] y_def [symmetric])
  with err show ?thesis by blast
qed

lemma rnd_error_unit:
  assumes "\<bar>x\<bar> < 2"
  shows "\<exists>y. rnd x = Fin y \<and> \<bar>y - x\<bar> \<le> 2 powi (- 53)"
  using rnd_error [of x 0] assms by simp

lemma rnd_relative:
  assumes "lo \<le> x" "x \<le> hi" "2 powi (- 1022) \<le> lo" "hi < 2 powi 1023"
  shows "\<exists>d. \<bar>d\<bar> \<le> 2 powi (- 53) \<and> rnd x = Fin (x * (1 + d))"
proof -
  have x: "0 < x" using assms(1,3) by (smt (verit) zero_less_power_int)
  define k where "k = expo x"
  from expo_bounds [OF x] have lo: "2 powi k \<le> x" and hi: "x < 2 powi (k + 1)"
    by (simp_all add: k_def)
  have k1: "k \<le> 1022"
  proof (rule ccontr)
    assume "\<not> k \<le> 1022"
    then have "1023 \<le> k" by simp
    then have "(2::real) powi 1023 \<le> 2 powi k" by (rule power_int_increasing) simp
    with lo assms(2,4) show False by linarith
  qed
  have k2: "- 1022 \<le> k"
  proof (rule ccontr)
    assume "\<not> - 1022 \<le> k"
    then have "k + 1 \<le> - 1022" by simp
    then have "(2::real) powi (k + 1) \<le> 2 powi (- 1022)" by (rule power_int_increasing) simp
    with hi assms(1,3) show False by linarith
  qed
  from hi x have "\<bar>x\<bar> < 2 powi (k + 1)" by simp
  from rnd_error [OF this k1] k2 obtain y where y: "rnd x = Fin y" "\<bar>y - x\<bar> \<le> 2 powi (k - 53)"
    by auto
  have "(2::real) powi (k - 53) = 2 powi (k + (- 53))" by simp
  also have "\<dots> = 2 powi k * 2 powi (- 53)" by (rule power_int_add) simp
  also have "\<dots> \<le> x * 2 powi (- 53)" using lo by (intro mult_right_mono) simp_all
  finally have "\<bar>y - x\<bar> \<le> x * 2 powi (- 53)" using y(2) by linarith
  then have "\<bar>(y - x) / x\<bar> \<le> 2 powi (- 53)"
    using x by (simp add: field_simps)
  moreover have "x * (1 + (y - x) / x) = y" using x by (simp add: field_simps)
  ultimately show ?thesis using y(1) by metis
qed

section \<open>Scores of a trend\<close>

lemmas rnd_eval = rnd_def expo_def round_even_def Let_def compute_bitlen lit_def

lemma lit_one: "lit 1.0 = Fin 1"
  by (simp add: rnd_eval)

lemma lit_half: "lit 0.5 = Fin (1 / 2)"
  by (simp add: rnd_eval)

lemma lit_03: "lit 0.3 = Fin (5404319552844595 / 18014398509481984)"
  by (simp add: rnd_eval)

lemma lit_02: "lit 0.2 = Fin (3602879701896397 / 18014398509481984)"
  by (simp add: rnd_eval)

lemma lit_085: "lit 0.85 = Fin (7656119366529843 / 9007199254740992)"
  by (simp add: rnd_eval)

lemma lit_07: "lit 0.7 = Fin (3152519739159347 / 4503599627370496)"
  by (simp add: rnd_eval)

lemma jmul_commute: "jmul a b = jmul b a"
  by (cases a; cases b) (auto simp: jmul_def mult.commute)

lemma bounded_mult: "\<bar>a\<bar> \<le> B \<Longrightarrow> \<bar>a * d\<bar> \<le> B * \<bar>d\<bar>" for a d B :: real
  by (simp add: abs_mult mult_right_mono)

lemma min_one_close: "\<bar>min a 1 - min b 1\<bar> \<le> \<bar>a - b\<bar>" for a b :: real
  by (simp add: min_def abs_le_iff) linarith

text \<open>A non-negative ratio capped at 1, as computed.\<close>

lemma capped_ratio:
  assumes "0 \<le> p" and "1 \<le> d"
  shows "\<exists>m. jmin (jdiv (Fin p) (Fin d)) (Fin 1) = Fin m
           \<and> \<bar>m - min (p / d) 1\<bar> \<le> 2 powi (- 53) \<and> - (2 powi (- 53)) \<le> m \<and> m \<le> 1"
proof (cases "p / d < 2")
  case True
  with assms have "\<bar>p / d\<bar> < 2" by simp
  from rnd_error_unit [OF this] obtain w where w: "rnd (p / d) = Fin w"
    "\<bar>w - p / d\<bar> \<le> 2 powi (- 53)" by blast
  from assms have d: "d \<noteq> 0" by simp
  have eq: "jmin (jdiv (Fin p) (Fin d)) (Fin 1) = Fin (min w 1)"
    using d by (simp add: w)
  have "\<bar>min w 1 - min (p / d) 1\<bar> \<le> \<bar>w - p / d\<bar>" by (rule min_one_close)
  with w(2) have c: "\<bar>min w 1 - min (p / d) 1\<bar> \<le> 2 powi (- 53)" by linarith
  have "0 \<le> p / d" using assms by simp
  with w(2) have "- (2 powi (- 53)) \<le> w" by linarith
  then have "- (2 powi (- 53)) \<le> min w 1" by (simp add: min_def)
  with eq c show ?thesis by auto
next
  case False
  then have big: "2 \<le> p / d" by simp
  from assms have d: "d \<noteq> 0" by simp
  have "(2::real) powi 1 \<le> p / d" using big by simp
  from rnd_lower [OF this] consider "rnd (p / d) = PInf"
    | w where "rnd (p / d) = Fin w" "2 \<le> w" by auto
  then have eq: "jmin (jdiv (Fin p) (Fin d)) (Fin 1) = Fin 1"
  proof cases
    case 1
    then show ?thesis using d by (simp add: jmin_def)
  next
    case 2
    then show ?thesis using d by simp
  qed
  from big have "min (p / d) 1 = 1" by simp
  with eq show ?thesis by simp
qed

lemma viralityScore_close:
  assumes "0 \<le> c" and "0 \<le> e"
  shows "\<exists>s. calculateViralityScore (Fin c) (Fin e) = Fin s
           \<and> \<bar>s - spec_viralityScore c e\<bar> \<le> 2 powi (- 51)"
proof -
  define eps :: real where "eps = 2 powi (- 53)"
  have eps: "0 < eps" "eps \<le> 1 / 1000" "4 * eps = 2 powi (- 51)" "2 * eps = 2 powi (- 52)"
    by (simp_all add: eps_def)
  from capped_ratio [of c 100] assms(1) obtain m1 where m1:
    "jmin (jdiv (Fin c) (Fin 100)) (Fin 1) = Fin m1" "\<bar>m1 - min (c / 100) 1\<bar> \<le> eps"
    "- eps \<le> m1" "m1 \<le> 1" unfolding eps_def by auto
  from capped_ratio [of e 1000] assms(2) obtain m2 where m2:
    "jmin (jdiv (Fin e) (Fin 1000)) (Fin 1) = Fin m2" "\<bar>m2 - min (e / 1000) 1\<bar> \<le> eps"
    "- eps \<le> m2" "m2 \<le> 1" unfolding eps_def by auto
  have "\<bar>m1 + m2\<bar> < 4" using m1(3,4) m2(3,4) eps(1,2) by argo
  then have "\<bar>m1 + m2\<bar> < 2 powi (1 + 1)" by simp
  from rnd_error [OF this] obtain z where z: "rnd (m1 + m2) = Fin z" "\<bar>z - (m1 + m2)\<bar> \<le> 2 * eps"
    using eps(4) by auto
  have "\<bar>z / 2\<bar> < 2" using z(2) m1(3,4) m2(3,4) eps(1,2) by argo
  from rnd_error_unit [OF this] obtain s where s: "rnd (z / 2) = Fin s" "\<bar>s - z / 2\<bar> \<le> eps"
    unfolding eps_def by blast
  have one: "lit 1.0 = Fin 1" by (simp add: lit_def rnd_def expo_def round_even_def compute_bitlen)
  have "calculateViralityScore (Fin c) (Fin e)
      = jdiv (jadd (jmin (jdiv (Fin c) (Fin 100)) (Fin 1))
                   (jmin (jdiv (Fin e) (Fin 1000)) (Fin 1))) (Fin 2)"
    by (simp only: calculateViralityScore_def viralityThreshold_def Let_def one)
  also have "\<dots> = jdiv (rnd (m1 + m2)) (Fin 2)" by (simp only: m1(1) m2(1) jadd_Fin)
  also have "\<dots> = rnd (z / 2)" by (simp only: z(1)) simp
  finally have code: "calculateViralityScore (Fin c) (Fin e) = Fin s" by (simp only: s(1))
  have "spec_viralityScore c e = (min (c / 100) 1 + min (e / 1000) 1) / 2"
    by (simp add: spec_viralityScore_def)
  then have "\<bar>s - spec_viralityScore c e\<bar> \<le> 4 * eps"
    using s(2) z(2) m1(2) m2(2) by argo
  with code eps(3) show ?thesis by auto
qed

lemma riskScore_close:
  assumes "0 \<le> h" "h \<le> 1" and "0 \<le> v" "v \<le> 1" and "0 \<le> p"
  shows "\<exists>s. riskScore (Fin h) (Fin v) (Fin p) = Fin s
           \<and> \<bar>s - spec_riskScore h v p\<bar> \<le> 2 powi (- 50)"
proof -
  define eps :: real where "eps = 2 powi (- 53)"
  have eps: "0 < eps" "eps \<le> 1 / 1000" "8 * eps = 2 powi (- 50)"
    "eps / 2 = 2 powi (- 54)" "eps / 4 = 2 powi (- 55)" "eps / 8 = 2 powi (- 56)"
    by (simp_all add: eps_def)
  \<comment> \<open>the three literals\<close>
  have "\<bar>1 / 2 :: real\<bar> < 2 powi (- 1 + 1)" by simp
  from rnd_error [OF this] obtain c5 where c5: "rnd (1 / 2) = Fin c5" "\<bar>c5 - 1 / 2\<bar> \<le> eps / 2"
    using eps(4) by auto
  have "\<bar>3 / 10 :: real\<bar> < 2 powi (- 2 + 1)" by simp
  from rnd_error [OF this] obtain c3 where c3: "rnd (3 / 10) = Fin c3" "\<bar>c3 - 3 / 10\<bar> \<le> eps / 4"
    using eps(5) by auto
  have "\<bar>1 / 5 :: real\<bar> < 2 powi (- 3 + 1)" by simp
  from rnd_error [OF this] obtain c2 where c2: "rnd (1 / 5) = Fin c2" "\<bar>c2 - 1 / 5\<bar> \<le> eps / 8"
    using eps(6) by auto
  have lits: "lit 0.5 = Fin c5" "lit 0.3 = Fin c3" "lit 0.2 = Fin c2"
    using c5(1) c3(1) c2(1) by (simp_all add: lit_def)
  \<comment> \<open>the three products\<close>
  have hb: "\<bar>h\<bar> \<le> 1" and vb: "\<bar>v\<bar> \<le> 1" using assms by simp_all
  have "\<bar>h * c5\<bar> \<le> 1 * \<bar>c5\<bar>" using hb by (rule bounded_mult)
  then have "\<bar>h * c5\<bar> < 2" using c5(2) eps(1,2) by argo
  from rnd_error_unit [OF this] obtain y1 where y1: "rnd (h * c5) = Fin y1"
    "\<bar>y1 - h * c5\<bar> \<le> eps" unfolding eps_def by blast
  have "\<bar>h * (c5 - 1 / 2)\<bar> \<le> 1 * \<bar>c5 - 1 / 2\<bar>" using hb by (rule bounded_mult)
  moreover have "h * (c5 - 1 / 2) = h * c5 - h / 2" by (simp add: algebra_simps)
  ultimately have e1: "\<bar>y1 - h / 2\<bar> \<le> eps + eps / 2"
    using y1(2) c5(2) by argo
  have "\<bar>v * c3\<bar> \<le> 1 * \<bar>c3\<bar>" using vb by (rule bounded_mult)
  then have "\<bar>v * c3\<bar> < 2" using c3(2) eps(1,2) by argo
  from rnd_error_unit [OF this] obtain y2 where y2: "rnd (v * c3) = Fin y2"
    "\<bar>y2 - v * c3\<bar> \<le> eps" unfolding eps_def by blast
  have "\<bar>v * (c3 - 3 / 10)\<bar> \<le> 1 * \<bar>c3 - 3 / 10\<bar>" using vb by (rule bounded_mult)
  moreover have "v * (c3 - 3 / 10) = v * c3 - 3 / 10 * v" by (simp add: algebra_simps)
  ultimately have e2: "\<bar>y2 - 3 / 10 * v\<bar> \<le> eps + eps / 4"
    using y2(2) c3(2) by argo
  from capped_ratio [of p 5] assms(5) obtain m where m:
    "jmin (jdiv (Fin p) (Fin 5)) (Fin 1) = Fin m" "\<bar>m - min (p / 5) 1\<bar> \<le> eps"
    "- eps \<le> m" "m \<le> 1" unfolding eps_def by auto
  have mb: "\<bar>m\<bar> \<le> 2" using m(3,4) eps(1,2) by argo
  have "\<bar>m * c2\<bar> \<le> 2 * \<bar>c2\<bar>" using mb by (rule bounded_mult)
  then have "\<bar>m * c2\<bar> < 2" using c2(2) eps(1,2) by argo
  from rnd_error_unit [OF this] obtain y3 where y3: "rnd (m * c2) = Fin y3"
    "\<bar>y3 - m * c2\<bar> \<le> eps" unfolding eps_def by blast
  have "\<bar>m * (c2 - 1 / 5)\<bar> \<le> 2 * \<bar>c2 - 1 / 5\<bar>" using mb by (rule bounded_mult)
  moreover have "m * (c2 - 1 / 5) = m * c2 - 1 / 5 * m" by (simp add: algebra_simps)
  ultimately have e3: "\<bar>y3 - 1 / 5 * min (p / 5) 1\<bar> \<le> eps + eps / 4 + eps / 5"
    using y3(2) c2(2) m(2) by argo
  \<comment> \<open>the two sums\<close>
  have mn: "0 \<le> min (p / 5) 1" "min (p / 5) 1 \<le> 1" using assms(5) by simp_all
  have "\<bar>y1 + y2\<bar> < 2" using e1 e2 assms(1-4) eps(1,2) by argo
  from rnd_error_unit [OF this] obtain z where z: "rnd (y1 + y2) = Fin z"
    "\<bar>z - (y1 + y2)\<bar> \<le> eps" unfolding eps_def by blast
  have "\<bar>z + y3\<bar> < 2" using z(2) e1 e2 e3 mn assms(1-4) eps(1,2) by argo
  from rnd_error_unit [OF this] obtain s where s: "rnd (z + y3) = Fin s"
    "\<bar>s - (z + y3)\<bar> \<le> eps" unfolding eps_def by blast
  have "riskScore (Fin h) (Fin v) (Fin p)
      = jadd (jadd (rnd (h * c5)) (rnd (v * c3))) (rnd (m * c2))"
    by (simp only: riskScore_def lits m(1) jmul_Fin)
  also have "\<dots> = jadd (rnd (y1 + y2)) (Fin y3)" by (simp only: y1(1) y2(1) y3(1) jadd_Fin)
  also have "\<dots> = Fin s" by (simp only: z(1) jadd_Fin s(1))
  finally have code: "riskScore (Fin h) (Fin v) (Fin p) = Fin s" .
  have "spec_riskScore h v p = h / 2 + 3 / 10 * v + 1 / 5 * min (p / 5) 1"
    by (simp add: spec_riskScore_def)
  then have "\<bar>s - spec_riskScore h v p\<bar> \<le> 8 * eps"
    using s(2) z(2) e1 e2 e3 eps(1) by argo
  with code eps(3) show ?thesis by auto
qed

lemma riskLevel_close:
  assumes "0 \<le> h" "h \<le> 1" and "0 \<le> v" "v \<le> 1" and "0 \<le> p"
    and far: "2 powi (- 49) < \<bar>spec_riskScore h v p - 0.85\<bar>"
      "2 powi (- 49) < \<bar>spec_riskScore h v p - 0.70\<bar>"
      "2 powi (- 49) < \<bar>spec_riskScore h v p - 0.50\<bar>"
  shows "calculateRiskLevel (Fin h) (Fin v) (Fin p) = spec_riskLevel (spec_riskScore h v p)"
proof -
  define eps :: real where "eps = 2 powi (- 53)"
  define S where "S = spec_riskScore h v p"
  have eps: "0 < eps" by (simp add: eps_def)
  have pw: "2 powi (- 50) = 8 * eps" "2 powi (- 49) = 16 * eps" "2 powi (- 54) = eps / 2"
    by (simp_all add: eps_def)
  from riskScore_close [OF assms(1-5)] obtain s where
    code: "riskScore (Fin h) (Fin v) (Fin p) = Fin s" and close: "\<bar>s - S\<bar> \<le> 8 * eps"
    unfolding S_def pw by blast
  have "\<bar>0.85 :: real\<bar> < 2 powi (- 1 + 1)" by simp
  from rnd_error [OF this] obtain b85 where b85: "lit 0.85 = Fin b85" "\<bar>b85 - 0.85\<bar> \<le> eps / 2"
    unfolding lit_def using pw(3) by auto
  have "\<bar>0.70 :: real\<bar> < 2 powi (- 1 + 1)" by simp
  from rnd_error [OF this] obtain b70 where b70: "lit 0.70 = Fin b70" "\<bar>b70 - 0.70\<bar> \<le> eps / 2"
    unfolding lit_def using pw(3) by auto
  have "\<bar>0.50 :: real\<bar> < 2 powi (- 1 + 1)" by simp
  from rnd_error [OF this] obtain b50 where b50: "lit 0.50 = Fin b50" "\<bar>b50 - 0.50\<bar> \<le> eps / 2"
    unfolding lit_def using pw(3) by auto
  have same: "lit 0.7 = lit 0.70" "lit 0.5 = lit 0.50" by (simp_all add: lit_def)
  from far have far': "16 * eps < \<bar>S - 0.85\<bar>" "16 * eps < \<bar>S - 0.70\<bar>" "16 * eps < \<bar>S - 0.50\<bar>"
    unfolding S_def pw by simp_all
  have i85: "(b85 \<le> s) = (0.85 \<le> S)" using close b85(2) far'(1) eps by argo
  have i70: "(b70 \<le> s) = (0.70 \<le> S)" using close b70(2) far'(2) eps by argo
  have i50: "(b50 \<le> s) = (0.50 \<le> S)" using close b50(2) far'(3) eps by argo
  have "calculateRiskLevel (Fin h) (Fin v) (Fin p)
      = (if b85 \<le> s then Critical else if b70 \<le> s then High
         else if b50 \<le> s then Medium else Low)"
    by (simp only: calculateRiskLevel_def Let_def code same b85(1) b70(1) b50(1) jge_Fin)
  also have "\<dots> = spec_riskLevel S"
    by (simp only: i85 i70 i50 spec_riskLevel_def)
  finally show ?thesis by (simp only: S_def)
qed



lemma virality_r1: "calculateViralityScore (Fin 100) (Fin (3125 / 4)) = Fin (57 / 64)"
  by (simp add: calculateViralityScore_def viralityThreshold_def lit_one rnd_eval)

lemma riskScore_r1:
  "riskScore (Fin (49 / 64)) (Fin (57 / 64)) (Fin 5) = Fin (3828059683264921 / 4503599627370496)"
  by (simp add: riskScore_def rnd_eval)


section \<open>Growth rate of a trend\<close>

lemma positive_not_le_zero: "positive h \<Longrightarrow> \<not> jle h (Fin 0)"
  by (cases h) simp_all

lemma timeSpanHours_positive:
  assumes "first_detected < last_updated"
  shows "positive (jdiv (jsub (Fin (of_int last_updated)) (Fin (of_int first_detected)))
                    (Fin (1000 * 60 * 60)))"
proof -
  define d where "d = last_updated - first_detected"
  from assms have d: "1 \<le> d" by (simp add: d_def)
  have sub: "jsub (Fin (of_int last_updated)) (Fin (of_int first_detected)) = rnd (of_int d)"
    by (simp add: d_def)
  have "(2::real) powi 0 \<le> of_int d" using d by simp
  from rnd_lower [OF this] consider "rnd (of_int d) = PInf"
    | y where "rnd (of_int d) = Fin y" "1 \<le> y" by auto
  then show ?thesis
  proof cases
    case 1
    then show ?thesis by (simp only: sub) simp
  next
    case 2
    have "(2::real) powi (- 22) \<le> 1 / 3600000" by simp
    also have "\<dots> \<le> y / 3600000" using 2(2) by (simp add: divide_right_mono)
    finally have "(2::real) powi (- 22) \<le> y / 3600000" .
    from rnd_lower [OF this] consider "rnd (y / 3600000) = PInf"
      | w where "rnd (y / 3600000) = Fin w" "2 powi (- 22) \<le> w" by auto
    then show ?thesis
    proof cases
      case 1
      with 2 show ?thesis by (simp only: sub) simp
    next
      case (2 w)
      from 2(2) have "0 < w" by (smt (verit) zero_less_power_int)
      with 2(1) \<open>rnd (of_int d) = Fin y\<close> show ?thesis
        by (simp only: sub) simp
    qed
  qed
qed

lemma growth_positive_span:
  assumes "first_detected < last_updated"
  shows "calculateGrowthRate first_detected last_updated count
            = jdiv count (jdiv (jsub (Fin (of_int last_updated)) (Fin (of_int first_detected)))
                            (Fin (1000 * 60 * 60)))"
  using positive_not_le_zero [OF timeSpanHours_positive [OF assms]]
  by (simp only: calculateGrowthRate_def Let_def if_False)

lemma scaled_range:
  fixes x d lo hi :: real
  assumes "lo \<le> x" "x \<le> hi" "0 < lo" "\<bar>d\<bar> \<le> 2 powi (- 53)"
  shows "lo / 2 \<le> x * (1 + d)" "x * (1 + d) \<le> 2 * hi"
proof -
  have "(2::real) powi (- 53) \<le> 1 / 2" by simp
  with assms(4) have d: "1 / 2 \<le> 1 + d" "1 + d \<le> 2" by linarith+
  have x: "0 < x" using assms(1,3) by linarith
  have "lo * (1 / 2) \<le> x * (1 + d)"
    using assms(1,3) d(1) by (intro mult_mono) simp_all
  then show "lo / 2 \<le> x * (1 + d)" by simp
  have "x * (1 + d) \<le> hi * 2"
    using assms(2) d x by (intro mult_mono) simp_all
  then show "x * (1 + d) \<le> 2 * hi" by simp
qed

lemma three_roundings:
  fixes a b g :: real
  assumes "\<bar>a\<bar> \<le> 2 powi (- 53)" "\<bar>b\<bar> \<le> 2 powi (- 53)" "\<bar>g\<bar> \<le> 2 powi (- 53)"
  shows "\<bar>(1 + g) / ((1 + a) * (1 + b)) - 1\<bar> \<le> 2 powi (- 51)"
proof -
  define eps :: real where "eps = 2 powi (- 53)"
  have eps: "0 < eps" "eps \<le> 1 / 1000" by (simp_all add: eps_def)
  have a: "\<bar>a\<bar> \<le> eps" and b: "\<bar>b\<bar> \<le> eps" and g: "\<bar>g\<bar> \<le> eps"
    using assms by (simp_all add: eps_def)
  define D where "D = (1 + a) * (1 + b)"
  have "(1 - eps) * (1 - eps) \<le> (1 + a) * (1 + b)"
    using a b eps by (intro mult_mono) (simp_all add: abs_le_iff)
  then have D: "(1 - eps) * (1 - eps) \<le> D" by (simp add: D_def)
  have low: "0 < (1 - eps) * (1 - eps)" using eps by simp
  with D have Dpos: "0 < D" by linarith
  have "\<bar>a * b\<bar> \<le> eps * eps"
    unfolding abs_mult using a b by (intro mult_mono) simp_all
  moreover have "1 + g - D = g - a - b - a * b" by (simp add: D_def algebra_simps)
  ultimately have num: "\<bar>1 + g - D\<bar> \<le> 3 * eps + eps * eps" using a b g by argo
  have "(1 + g) / D - 1 = (1 + g - D) / D" using Dpos by (simp add: field_simps)
  then have "\<bar>(1 + g) / D - 1\<bar> = \<bar>1 + g - D\<bar> / D" using Dpos by simp
  also have "\<dots> \<le> (3 * eps + eps * eps) / ((1 - eps) * (1 - eps))"
    using num D low eps by (intro frac_le) simp_all
  also have "\<dots> \<le> 4 * eps" by (simp add: eps_def)
  finally show ?thesis by (simp add: D_def eps_def)
qed

lemma growthRate_close:
  assumes "first_detected < last_updated" "last_updated - first_detected \<le> 2 ^ 54"
    and "1 \<le> c" "c \<le> 2 ^ 53"
  shows "\<exists>r. calculateGrowthRate first_detected last_updated (Fin c) = Fin r
           \<and> \<bar>r - spec_growthRate first_detected last_updated c\<bar>
               \<le> 2 powi (- 51) * spec_growthRate first_detected last_updated c"
proof -
  define d :: real where "d = of_int (last_updated - first_detected)"
  have d: "1 \<le> d" "d \<le> 2 ^ 54"
  proof -
    from assms(1) have "1 \<le> last_updated - first_detected" by simp
    then show "1 \<le> d" unfolding d_def by linarith
    from assms(2) have "real_of_int (last_updated - first_detected) \<le> of_int (2 ^ 54)"
      by (simp only: of_int_le_iff)
    then show "d \<le> 2 ^ 54" by (simp add: d_def)
  qed
  from rnd_relative [OF d] obtain a where a: "\<bar>a\<bar> \<le> 2 powi (- 53)" "rnd d = Fin (d * (1 + a))"
    by auto
  define d1 where "d1 = d * (1 + a)"
  from scaled_range [OF d _ a(1)] have d1: "1 / 2 \<le> d1" "d1 \<le> 2 * 2 ^ 54"
    by (simp_all add: d1_def)
  define x1 where "x1 = d1 / 3600000"
  have x1: "1 / 7200000 \<le> x1" "x1 \<le> 2 * 2 ^ 54 / 3600000"
    using d1 by (simp_all add: x1_def field_simps)
  from rnd_relative [OF x1] obtain b where b: "\<bar>b\<bar> \<le> 2 powi (- 53)"
    "rnd x1 = Fin (x1 * (1 + b))" by auto
  define h1 where "h1 = x1 * (1 + b)"
  from scaled_range [OF x1 _ b(1)] have h1: "1 / 7200000 / 2 \<le> h1" "h1 \<le> 2 * (2 * 2 ^ 54 / 3600000)"
    by (simp_all add: h1_def)
  then have h1pos: "0 < h1" by linarith
  define x2 where "x2 = c / h1"
  have "1 / (2 * (2 * 2 ^ 54 / 3600000)) \<le> c / h1"
    using assms(3) h1 h1pos by (intro frac_le) simp_all
  moreover have "c / h1 \<le> 2 ^ 53 / (1 / 7200000 / 2)"
    using assms(3,4) h1 by (intro frac_le) simp_all
  ultimately have x2: "1 / (2 * (2 * 2 ^ 54 / 3600000)) \<le> x2" "x2 \<le> 2 ^ 53 / (1 / 7200000 / 2)"
    by (simp_all add: x2_def)
  from rnd_relative [OF x2] obtain g where g: "\<bar>g\<bar> \<le> 2 powi (- 53)"
    "rnd x2 = Fin (x2 * (1 + g))" by auto
  define r where "r = x2 * (1 + g)"
  have sub: "jsub (Fin (of_int last_updated)) (Fin (of_int first_detected)) = rnd d"
    by (simp add: d_def)
  have "calculateGrowthRate first_detected last_updated (Fin c)
      = jdiv (Fin c) (jdiv (jsub (Fin (of_int last_updated)) (Fin (of_int first_detected)))
                            (Fin (1000 * 60 * 60)))"
    using assms(1) by (rule growth_positive_span)
  also have "\<dots> = jdiv (Fin c) (jdiv (Fin d1) (Fin 3600000))"
    by (simp only: sub a(2) d1_def) simp
  also have "jdiv (Fin d1) (Fin 3600000) = Fin h1"
    using b(2) by (simp add: x1_def h1_def)
  also have "jdiv (Fin c) (Fin h1) = Fin r"
    using g(2) h1pos by (simp add: x2_def r_def)
  finally have code: "calculateGrowthRate first_detected last_updated (Fin c) = Fin r" .
  define G where "G = spec_growthRate first_detected last_updated c"
  have G: "G = c / (d / 3600000)"
    using assms(1) by (simp add: G_def spec_growthRate_def d_def)
  have Gpos: "0 \<le> G" using assms(3) d by (simp add: G)
  have one: "0 < 1 + a" "0 < 1 + b"
    using a(1) b(1) by (simp_all add: abs_le_iff)
  have "r = G * ((1 + g) / ((1 + a) * (1 + b)))"
    using d one by (simp add: r_def x2_def h1_def x1_def d1_def G field_simps)
  then have "r - G = G * ((1 + g) / ((1 + a) * (1 + b)) - 1)" by (simp add: algebra_simps)
  then have "\<bar>r - G\<bar> = G * \<bar>(1 + g) / ((1 + a) * (1 + b)) - 1\<bar>"
    using Gpos by (simp add: abs_mult)
  also have "\<dots> \<le> G * 2 powi (- 51)"
    using three_roundings [OF a(1) b(1) g(1)] Gpos by (intro mult_left_mono) simp_all
  finally have "\<bar>r - G\<bar> \<le> 2 powi (- 51) * G" by (simp add: mult.commute)
  with code show ?thesis unfolding G_def by blast
qed

text \<open>
  Claim C7, as amended. When the first-detected and last-updated timestamps are equal,
  \<^verbatim>\<open>calculateGrowthRate\<close> returns exactly 0 for every count, where the division it
  guards would return Infinity for a positive count and NaN for the count 0. When the
  span is positive, the span in hours is a positive number and the result is the double
  quotient of the count by it, the span in hours being itself the double quotient of the
  milliseconds by 3600000. For a span of at most \<open>2 ^ 54\<close> milliseconds (any two valid
  dates) and a count from 1 to \<open>2 ^ 53\<close> the result is a finite number within the
  relative error \<open>2 powi (- 51)\<close> of the count divided by the span in hours.
\<close>

theorem calculateGrowthRate_zero_span:
  "(first_detected = last_updated \<longrightarrow>
      calculateGrowthRate first_detected last_updated count = Fin 0
      \<and> (\<forall>c. 0 < c \<longrightarrow>
            jdiv (Fin c) (jdiv (jsub (Fin (of_int last_updated)) (Fin (of_int first_detected)))
                           (Fin (1000 * 60 * 60))) = PInf)
      \<and> jdiv (Fin 0) (jdiv (jsub (Fin (of_int last_updated)) (Fin (of_int first_detected)))
                           (Fin (1000 * 60 * 60))) = NaN)
   \<and> (first_detected < last_updated \<longrightarrow>
        positive (jdiv (jsub (Fin (of_int last_updated)) (Fin (of_int first_detected)))
                    (Fin (1000 * 60 * 60)))
        \<and> calculateGrowthRate first_detected last_updated count
            = jdiv count (jdiv (jsub (Fin (of_int last_updated)) (Fin (of_int first_detected)))
                            (Fin (1000 * 60 * 60))))
   \<and> (first_detected < last_updated \<and> last_updated - first_detected \<le> 2 ^ 54
        \<and> 1 \<le> n \<and> n \<le> 2 ^ 53 \<longrightarrow>
        (\<exists>r. calculateGrowthRate first_detected last_updated (Fin n) = Fin r
             \<and> \<bar>r - spec_growthRate first_detected last_updated n\<bar>
                 \<le> 2 powi (- 51) * spec_growthRate first_detected last_updated n))"
proof -
  have a: "calculateGrowthRate t t count = Fin 0" for t
    by (simp add: calculateGrowthRate_def Let_def)
  have b: "jdiv (Fin c) (jdiv (jsub (Fin (of_int t)) (Fin (of_int t))) (Fin (1000 * 60 * 60))) = PInf"
    if "0 < c" for c :: real and t :: int
    using that by simp
  have c: "jdiv (Fin 0) (jdiv (jsub (Fin (of_int t)) (Fin (of_int t))) (Fin (1000 * 60 * 60))) = NaN"
    for t :: int
    by simp
  have d: "calculateGrowthRate first_detected last_updated count
            = jdiv count (jdiv (jsub (Fin (of_int last_updated)) (Fin (of_int first_detected)))
                            (Fin (1000 * 60 * 60)))"
    if "first_detected < last_updated"
    using that by (rule growth_positive_span)
  have e: "first_detected < last_updated \<and> last_updated - first_detected \<le> 2 ^ 54
        \<and> 1 \<le> n \<and> n \<le> 2 ^ 53 \<longrightarrow>
        (\<exists>r. calculateGrowthRate first_detected last_updated (Fin n) = Fin r
             \<and> \<bar>r - spec_growthRate first_detected last_updated n\<bar>
                 \<le> 2 powi (- 51) * spec_growthRate first_detected last_updated n)"
    using growthRate_close by blast
  have z: "first_detected = last_updated \<longrightarrow>
      calculateGrowthRate first_detected last_updated count = Fin 0
      \<and> (\<forall>c. 0 < c \<longrightarrow>
            jdiv (Fin c) (jdiv (jsub (Fin (of_int last_updated)) (Fin (of_int first_detected)))
                           (Fin (1000 * 60 * 60))) = PInf)
      \<and> jdiv (Fin 0) (jdiv (jsub (Fin (of_int last_updated)) (Fin (of_int first_detected)))
                           (Fin (1000 * 60 * 60))) = NaN"
    using a b c by blast
  have q: "first_detected < last_updated \<longrightarrow>
        positive (jdiv (jsub (Fin (of_int last_updated)) (Fin (of_int first_detected)))
                    (Fin (1000 * 60 * 60)))
        \<and> calculateGrowthRate first_detected last_updated count
            = jdiv count (jdiv (jsub (Fin (of_int last_updated)) (Fin (of_int first_detected)))
                            (Fin (1000 * 60 * 60)))"
    using d timeSpanHours_positive by blast
  from z q e show ?thesis by (intro conjI)
qed

theorem calculateGrowthRate_zero_span_witness:
  "calculateGrowthRate 1000 1000 (Fin 12) = Fin 0
   \<and> jdiv (Fin 12) (jdiv (jsub (Fin (of_int 1000)) (Fin (of_int 1000))) (Fin (1000 * 60 * 60))) = PInf
   \<and> (0::int) < 10800000 \<and> (10800000::int) - 0 \<le> 2 ^ 54 \<and> (1::real) \<le> 12 \<and> (12::real) \<le> 2 ^ 53
   \<and> calculateGrowthRate 0 10800000 (Fin 12) = Fin 4
   \<and> (\<exists>r. calculateGrowthRate 0 10800000 (Fin 12) = Fin r
          \<and> \<bar>r - spec_growthRate 0 10800000 12\<bar> \<le> 2 powi (- 51) * spec_growthRate 0 10800000 12)"
proof -
  have h: "(0::int) < 10800000 \<and> (10800000::int) - 0 \<le> 2 ^ 54 \<and> (1::real) \<le> 12
      \<and> (12::real) \<le> 2 ^ 53" by simp
  from calculateGrowthRate_zero_span [of 1000 1000 "Fin 12"]
  have z: "calculateGrowthRate 1000 1000 (Fin 12) = Fin 0"
    and i: "jdiv (Fin 12) (jdiv (jsub (Fin (of_int 1000)) (Fin (of_int 1000)))
                   (Fin (1000 * 60 * 60))) = PInf"
    by simp_all
  note t = calculateGrowthRate_zero_span [of 0 10800000 "Fin 12" 12]
  from t h
  have "calculateGrowthRate 0 10800000 (Fin 12)
      = jdiv (Fin 12) (jdiv (jsub (Fin (of_int 10800000)) (Fin (of_int 0))) (Fin (1000 * 60 * 60)))"
    by blast
  also have "\<dots> = Fin 4"
    by (simp add: rnd_eval)
  finally have four: "calculateGrowthRate 0 10800000 (Fin 12) = Fin 4" .
  from t h have close: "\<exists>r. calculateGrowthRate 0 10800000 (Fin 12) = Fin r
          \<and> \<bar>r - spec_growthRate 0 10800000 12\<bar> \<le> 2 powi (- 51) * spec_growthRate 0 10800000 12"
    by blast
  from z i h four close show ?thesis by blast
qed

text \<open>
  Claim C7 as stated, in exact arithmetic, fails on a positive span. 70 items over 4 hours
  40 minutes are exactly 15 items an hour; the code divides 70 by the rounded
  4.666666666666667 and returns 14.999999999999998.
\<close>

theorem growthRate_rounds_counterexample:
  "calculateGrowthRate 0 16800000 (Fin 70) = Fin (8444249301319679 / 562949953421312)
   \<and> spec_growthRate 0 16800000 70 = 15
   \<and> calculateGrowthRate 0 16800000 (Fin 70) \<noteq> Fin (spec_growthRate 0 16800000 70)"
proof -
  have "calculateGrowthRate 0 16800000 (Fin 70)
      = jdiv (Fin 70) (jdiv (jsub (Fin (of_int 16800000)) (Fin (of_int 0))) (Fin (1000 * 60 * 60)))"
    by (rule growth_positive_span) simp
  also have "\<dots> = Fin (8444249301319679 / 562949953421312)"
    by (simp add: rnd_eval)
  finally have code:
    "calculateGrowthRate 0 16800000 (Fin 70) = Fin (8444249301319679 / 562949953421312)" .
  have spec: "spec_growthRate 0 16800000 70 = 15"
    by (simp add: spec_growthRate_def)
  from code spec show ?thesis by simp
qed

section \<open>Identity of a trend\<close>

lemma show_nat_digit: "n < 10 \<Longrightarrow> show_nat n = [''0123456789'' ! n]"
  by (simp add: show_nat.simps)

lemma detectTrendingHashtags_id:
  "map trend_id (detectTrendingHashtags now (Some rows)) = map (\<lambda>g. ''hashtag_'' @ tg_id g) rows"
  by (simp add: detectTrendingHashtags_def createTrendData_def Let_def comp_def)

lemma detectTrendingKeywords_id:
  "map trend_id (detectTrendingKeywords now (Some rows)) = map (\<lambda>g. ''keyword_'' @ tg_id g) rows"
  by (simp add: detectTrendingKeywords_def createTrendData_def Let_def comp_def)

lemma detectCrossPlatformTrends_id:
  "map trend_id (detectCrossPlatformTrends now (Some rows))
     = map (\<lambda>i. ''crossplatform_'' @ show_nat i) [0..<length rows]"
proof -
  let ?g = "\<lambda>i. ''crossplatform_'' @ show_nat i"
  have "map trend_id (detectCrossPlatformTrends now (Some rows))
      = map (\<lambda>p. ?g (fst p)) (enumerate 0 rows)"
    by (simp add: detectCrossPlatformTrends_def createTrendData_def Let_def comp_def
        case_prod_beta)
  also have "\<dots> = map ?g (map fst (enumerate 0 rows))"
    by (simp only: map_map comp_def)
  also have "\<dots> = map ?g [0..<length rows]" by simp
  finally show ?thesis .
qed

lemma strings_storeTrendData:
  "strings (storeTrendData t r) k =
     (if k = ''trend:'' @ trend_id t then Some (StoredTrend t, 24 * 60 * 60) else strings r k)"
  by (simp add: storeTrendData_def zAdd_def setEx_def Let_def)

text \<open>
  Claim C3, evaluated where it fails. The same cross-platform cluster (categories violence,
  hashtag x, 30 items) is the first row of one cycle and the second row of the next one,
  where another cluster has grown past it. Its normalised signal key is the same in both
  cycles, its trend id is \<^verbatim>\<open>crossplatform_0\<close> in the first and \<^verbatim>\<open>crossplatform_1\<close> in the
  second, and storing its second trend on top of its first writes a second ledger key
  instead of replacing the first.
\<close>

theorem crossplatform_id_follows_position:
  "getTrendKey (detectCrossPlatformTrends 0
       (Some [\<lparr>cg_categories = Some [''violence''], cg_hashtags = Some [''x''],
                cg_platforms = [''tiktok'', ''youtube''], cg_count = Fin 30,
                cg_avgHarmfulnessScore = lit 0.8, cg_totalEngagement = Fin 3000,
                cg_firstSeen = 0, cg_lastSeen = 3600000\<rparr>,
              \<lparr>cg_categories = Some [''spam''], cg_hashtags = Some [''y''],
                cg_platforms = [''tiktok'', ''youtube''], cg_count = Fin 25,
                cg_avgHarmfulnessScore = lit 0.8, cg_totalEngagement = Fin 2500,
                cg_firstSeen = 0, cg_lastSeen = 3600000\<rparr>]) ! 0)
   = getTrendKey (detectCrossPlatformTrends 0
       (Some [\<lparr>cg_categories = Some [''spam''], cg_hashtags = Some [''y''],
                cg_platforms = [''tiktok'', ''youtube''], cg_count = Fin 40,
                cg_avgHarmfulnessScore = lit 0.8, cg_totalEngagement = Fin 4000,
                cg_firstSeen = 0, cg_lastSeen = 3600000\<rparr>,
              \<lparr>cg_categories = Some [''violence''], cg_hashtags = Some [''x''],
                cg_platforms = [''tiktok'', ''youtube''], cg_count = Fin 30,
                cg_avgHarmfulnessScore = lit 0.8, cg_totalEngagement = Fin 3000,
                cg_firstSeen = 0, cg_lastSeen = 3600000\<rparr>]) ! 1)
   \<and> trend_id (detectCrossPlatformTrends 0
       (Some [\<lparr>cg_categories = Some [''violence''], cg_hashtags = Some [''x''],
                cg_platforms = [''tiktok'', ''youtube''], cg_count = Fin 30,
                cg_avgHarmfulnessScore = lit 0.8, cg_totalEngagement = Fin 3000,
                cg_firstSeen = 0, cg_lastSeen = 3600000\<rparr>,
              \<lparr>cg_categories = Some [''spam''], cg_hashtags = Some [''y''],
                cg_platforms = [''tiktok'', ''youtube''], cg_count = Fin 25,
                cg_avgHarmfulnessScore = lit 0.8, cg_totalEngagement = Fin 2500,
                cg_firstSeen = 0, cg_lastSeen = 3600000\<rparr>]) ! 0) = ''crossplatform_0''
   \<and> trend_id (detectCrossPlatformTrends 0
       (Some [\<lparr>cg_categories = Some [''spam''], cg_hashtags = Some [''y''],
                cg_platforms = [''tiktok'', ''youtube''], cg_count = Fin 40,
                cg_avgHarmfulnessScore = lit 0.8, cg_totalEngagement = Fin 4000,
                cg_firstSeen = 0, cg_lastSeen = 3600000\<rparr>,
              \<lparr>cg_categories = Some [''violence''], cg_hashtags = Some [''x''],
                cg_platforms = [''tiktok'', ''youtube''], cg_count = Fin 30,
                cg_avgHarmfulnessScore = lit 0.8, cg_totalEngagement = Fin 3000,
                cg_firstSeen = 0, cg_lastSeen = 3600000\<rparr>]) ! 1) = ''crossplatform_1''
   \<and> dom (strings
         (storeTrendData (detectCrossPlatformTrends 0
       (Some [\<lparr>cg_categories = Some [''spam''], cg_hashtags = Some [''y''],
                cg_platforms = [''tiktok'', ''youtube''], cg_count = Fin 40,
                cg_avgHarmfulnessScore = lit 0.8, cg_totalEngagement = Fin 4000,
                cg_firstSeen = 0, cg_lastSeen = 3600000\<rparr>,
              \<lparr>cg_categories = Some [''violence''], cg_hashtags = Some [''x''],
                cg_platforms = [''tiktok'', ''youtube''], cg_count = Fin 30,
                cg_avgHarmfulnessScore = lit 0.8, cg_totalEngagement = Fin 3000,
                cg_firstSeen = 0, cg_lastSeen = 3600000\<rparr>]) ! 1)
         (storeTrendData (detectCrossPlatformTrends 0
       (Some [\<lparr>cg_categories = Some [''violence''], cg_hashtags = Some [''x''],
                cg_platforms = [''tiktok'', ''youtube''], cg_count = Fin 30,
                cg_avgHarmfulnessScore = lit 0.8, cg_totalEngagement = Fin 3000,
                cg_firstSeen = 0, cg_lastSeen = 3600000\<rparr>,
              \<lparr>cg_categories = Some [''spam''], cg_hashtags = Some [''y''],
                cg_platforms = [''tiktok'', ''youtube''], cg_count = Fin 25,
                cg_avgHarmfulnessScore = lit 0.8, cg_totalEngagement = Fin 2500,
                cg_firstSeen = 0, cg_lastSeen = 3600000\<rparr>]) ! 0) empty_redis)))
       = {''trend:crossplatform_0'', ''trend:crossplatform_1''}"
proof -
  define T1 where "T1 = detectCrossPlatformTrends 0
       (Some [\<lparr>cg_categories = Some [''violence''], cg_hashtags = Some [''x''],
                cg_platforms = [''tiktok'', ''youtube''], cg_count = Fin 30,
                cg_avgHarmfulnessScore = lit 0.8, cg_totalEngagement = Fin 3000,
                cg_firstSeen = 0, cg_lastSeen = 3600000\<rparr>,
              \<lparr>cg_categories = Some [''spam''], cg_hashtags = Some [''y''],
                cg_platforms = [''tiktok'', ''youtube''], cg_count = Fin 25,
                cg_avgHarmfulnessScore = lit 0.8, cg_totalEngagement = Fin 2500,
                cg_firstSeen = 0, cg_lastSeen = 3600000\<rparr>]) ! 0"
  define T2 where "T2 = detectCrossPlatformTrends 0
       (Some [\<lparr>cg_categories = Some [''spam''], cg_hashtags = Some [''y''],
                cg_platforms = [''tiktok'', ''youtube''], cg_count = Fin 40,
                cg_avgHarmfulnessScore = lit 0.8, cg_totalEngagement = Fin 4000,
                cg_firstSeen = 0, cg_lastSeen = 3600000\<rparr>,
              \<lparr>cg_categories = Some [''violence''], cg_hashtags = Some [''x''],
                cg_platforms = [''tiktok'', ''youtube''], cg_count = Fin 30,
                cg_avgHarmfulnessScore = lit 0.8, cg_totalEngagement = Fin 3000,
                cg_firstSeen = 0, cg_lastSeen = 3600000\<rparr>]) ! 1"
  have key: "getTrendKey T1 = getTrendKey T2"
    by (simp add: T1_def T2_def detectCrossPlatformTrends_def createTrendData_def Let_def
        getTrendKey_def enumerate_eq_zip upt_rec)
  have id1: "trend_id T1 = ''crossplatform_0''"
    by (simp add: T1_def detectCrossPlatformTrends_def createTrendData_def Let_def
        show_nat_digit enumerate_eq_zip upt_rec)
  have id2: "trend_id T2 = ''crossplatform_1''"
    by (simp add: T2_def detectCrossPlatformTrends_def createTrendData_def Let_def
        show_nat_digit enumerate_eq_zip upt_rec)
  have "strings (storeTrendData T2 (storeTrendData T1 empty_redis)) k \<noteq> None
          \<longleftrightarrow> k \<in> {''trend:crossplatform_0'', ''trend:crossplatform_1''}" for k
    by (simp only: strings_storeTrendData id1 id2) (auto simp: empty_redis_def)
  then have "dom (strings (storeTrendData T2 (storeTrendData T1 empty_redis)))
      = {''trend:crossplatform_0'', ''trend:crossplatform_1''}"
    unfolding dom_def by blast
  with key id1 id2 show ?thesis unfolding T1_def T2_def by blast
qed

section \<open>Early warnings of a cycle\<close>

lemma lists_storeTrendData [simp]: "lists (storeTrendData t r) = lists r"
  by (simp add: storeTrendData_def zAdd_def setEx_def Let_def)

lemma lists_generateEarlyWarning:
  "lists (generateEarlyWarning now t r)
     = (lists r)(''warnings:active'' :=
          (''warning_'' @ trend_id t @ ''_'' @ show_int now) # lists r ''warnings:active'')"
  by (simp add: generateEarlyWarning_def lPush_def setEx_def Let_def)

lemma lists_analyze_step:
  "lists (analyze_step now t r) k =
     (if k = ''warnings:active'' \<and> (riskLevel t = High \<or> riskLevel t = Critical)
      then (''warning_'' @ trend_id t @ ''_'' @ show_int now) # lists r k
      else lists r k)"
  by (simp add: analyze_step_def Let_def lists_generateEarlyWarning)

lemma cycle_writes_only_active_list:
  "k \<noteq> ''warnings:active'' \<Longrightarrow> lists (fold (analyze_step now) ts r) k = lists r k"
  by (induction ts arbitrary: r) (simp_all add: lists_analyze_step)

lemma cycle_active_list:
  "lists (fold (analyze_step now) ts r) ''warnings:active''
     = rev (map (\<lambda>t. ''warning_'' @ trend_id t @ ''_'' @ show_int now)
              (filter (\<lambda>t. riskLevel t = High \<or> riskLevel t = Critical) ts))
       @ lists r ''warnings:active''"
  by (induction ts arbitrary: r) (simp_all add: lists_analyze_step)

lemma warning_expiry:
  "strings (generateEarlyWarning now t r) (''warning:warning_'' @ trend_id t @ ''_'' @ show_int now)
     = Some (StoredWarning \<lparr>warning_id = ''warning_'' @ trend_id t @ ''_'' @ show_int now,
                     title = generateWarningTitle t,
                     warning_severity = riskLevel t,
                     trendData = t,
                     recommendedActions = generateRecommendedActions t,
                     createdAt = now\<rparr>, 7 * 24 * 60 * 60)"
  by (simp add: generateEarlyWarning_def lPush_def setEx_def Let_def)

lemma show_int_1000: "show_int 1000 = ''1000''"
  by (simp add: show_int_def show_nat.simps)

text \<open>
  Claim C8, evaluated where it fails. A cycle with one trend of high risk puts the id of its
  one warning on the list \<^verbatim>\<open>warnings:active\<close> and leaves the list \<^verbatim>\<open>warnings:high\<close>
  empty.
\<close>

theorem high_trend_warning_not_on_severity_list:
  "map riskLevel (fst (analyzeCurrentTrends 1000
       (Some [\<lparr>tg_id = ''x'', tg_count = Fin 100, tg_platforms = [''tiktok''],
                tg_avgHarmfulnessScore = lit 0.8, tg_totalEngagement = Fin 100000,
                tg_categories = [[''violence'']], tg_firstSeen = 0, tg_lastSeen = 3600000\<rparr>])
       (Some []) (Some []) empty_redis)) = [High]
   \<and> lists (snd (analyzeCurrentTrends 1000
       (Some [\<lparr>tg_id = ''x'', tg_count = Fin 100, tg_platforms = [''tiktok''],
                tg_avgHarmfulnessScore = lit 0.8, tg_totalEngagement = Fin 100000,
                tg_categories = [[''violence'']], tg_firstSeen = 0, tg_lastSeen = 3600000\<rparr>])
       (Some []) (Some []) empty_redis)) ''warnings:active'' = [''warning_hashtag_x_1000'']
   \<and> lists (snd (analyzeCurrentTrends 1000
       (Some [\<lparr>tg_id = ''x'', tg_count = Fin 100, tg_platforms = [''tiktok''],
                tg_avgHarmfulnessScore = lit 0.8, tg_totalEngagement = Fin 100000,
                tg_categories = [[''violence'']], tg_firstSeen = 0, tg_lastSeen = 3600000\<rparr>])
       (Some []) (Some []) empty_redis)) ''warnings:high'' = []"
proof -
  let ?g = "\<lparr>tg_id = ''x'', tg_count = Fin 100, tg_platforms = [''tiktok''],
                tg_avgHarmfulnessScore = lit 0.8, tg_totalEngagement = Fin 100000,
                tg_categories = [[''violence'']], tg_firstSeen = 0, tg_lastSeen = 3600000\<rparr>"
  let ?run = "analyzeCurrentTrends 1000 (Some [?g]) (Some []) (Some []) empty_redis"
  let ?t = "createTrendData 1000
                 \<lparr>in_id = ''hashtag_'' @ tg_id ?g,
                  in_hashtags = [tg_id ?g],
                  in_keywords = [],
                  in_platforms = tg_platforms ?g,
                  in_harmfulnessScore = tg_avgHarmfulnessScore ?g,
                  in_contentCount = tg_count ?g,
                  in_averageEngagement = jdiv (tg_totalEngagement ?g) (tg_count ?g),
                  in_categories = concat (tg_categories ?g),
                  in_firstDetected = tg_firstSeen ?g,
                  in_lastUpdated = tg_lastSeen ?g\<rparr>"
  define T where "T = sort_signals ?t"
  have trends: "fst ?run = [T]"
    by (simp add: analyzeCurrentTrends_def detectTrendingHashtags_def detectTrendingKeywords_def
        detectCrossPlatformTrends_def consolidateTrends_def Let_def T_def)
  have risk: "riskLevel T = High"
    by (simp add: T_def sort_signals_def createTrendData_def calculateRiskLevel_def riskScore_def
        calculateViralityScore_def viralityThreshold_def js_or_def rnd_eval)
  have tid: "trend_id T = ''hashtag_x''"
    by (simp add: T_def sort_signals_def createTrendData_def Let_def)
  have run: "snd ?run = fold (analyze_step 1000) (fst ?run) empty_redis"
    by (simp add: analyzeCurrentTrends_def Let_def)
  have active: "lists (snd ?run) ''warnings:active'' = [''warning_hashtag_x_1000'']"
    by (simp only: run trends cycle_active_list)
       (simp add: risk tid show_int_1000 empty_redis_def)
  have high: "lists (snd ?run) ''warnings:high'' = []"
    by (simp only: run) (simp add: cycle_writes_only_active_list empty_redis_def)
  from trends risk active high show ?thesis by simp
qed

end
